theory Spec2Isabelle
  imports Main
begin

section \<open>User management service: data model\<close>

text \<open>
  The development embeds \<^verbatim>\<open>services/user-management/apps/users/models.py\<close> and
  the views of \<^verbatim>\<open>apps/users/views.py\<close> that act on these models. A database table
  is the list of its rows in insertion order; a model method that ends with
  \<^verbatim>\<open>self.save(...)\<close> takes the in-memory object and the database and returns both.
\<close>

subsection \<open>Time\<close>

text \<open>
  A \<^verbatim>\<open>datetime\<close> is its number of microseconds since the epoch, a
  \<^verbatim>\<open>timedelta\<close> a number of microseconds. Each model method reads
  \<^verbatim>\<open>timezone.now()\<close> once; the reading is the parameter \<open>now\<close>. A view is given one
  reading for the whole request and passes it to the methods it calls.
\<close>

type_synonym datetime = int

definition timedelta_minutes :: "int \<Rightarrow> int" where
  "timedelta_minutes m = m * 60 * 1000000"

definition timedelta_hours :: "int \<Rightarrow> int" where
  "timedelta_hours h = h * 3600 * 1000000"

definition timedelta_days :: "int \<Rightarrow> int" where
  "timedelta_days d = d * 86400 * 1000000"

subsection \<open>Errors\<close>

text \<open>The exceptions that leave a model method or a view.\<close>

datatype error =
    DoesNotExist
  | MultipleObjectsReturned
  | DatabaseError
  | IntegrityError
  | ValidationError

subsection \<open>Rows\<close>

text \<open>The entry that \<^verbatim>\<open>User.add_session\<close> stores in \<^verbatim>\<open>active_sessions\<close>.\<close>

record session_summary =
  ss_id :: string
  ss_ip_address :: string
  ss_user_agent :: string
  ss_created_at :: datetime

text \<open>
  The fields of \<^verbatim>\<open>User\<close> that the modelled methods and views read or write.
  \<open>tenant\<close> is the foreign key the views filter on; \<open>password\<close> is the stored hash.
\<close>

record user =
  uid :: nat
  tenant :: nat
  email :: string
  password :: string
  is_active :: bool
  failed_login_attempts :: int
  locked_until :: "datetime option"
  password_changed_at :: "datetime option"
  must_change_password :: bool
  active_sessions :: "session_summary list"
  last_login :: "datetime option"
  last_login_ip :: "string option"
  last_login_user_agent :: string

record login_history =
  lh_user :: "nat option"
  lh_email :: string
  lh_success :: bool
  lh_failure_reason :: string
  lh_ip_address :: string
  lh_user_agent :: string
  lh_attempted_at :: datetime

record user_session =
  us_id :: nat
  us_user :: nat
  us_session_key :: string
  us_jwt_token_id :: string
  us_ip_address :: string
  us_user_agent :: string
  us_created_at :: datetime
  us_expires_at :: datetime
  us_revoked_at :: "datetime option"
  us_is_active :: bool

record password_reset_token =
  prt_id :: nat
  prt_user :: nat
  prt_token :: string
  prt_created_at :: datetime
  prt_expires_at :: datetime
  prt_used_at :: "datetime option"
  prt_ip_address :: string
  prt_user_agent :: string
  prt_is_used :: bool
  prt_is_revoked :: bool

record db =
  users :: "user list"
  login_histories :: "login_history list"
  user_sessions :: "user_session list"
  password_reset_tokens :: "password_reset_token list"

subsection \<open>Queries and saves\<close>

text \<open>
  \<^verbatim>\<open>Model.objects.get(**filters)\<close>: the one row that matches, \<^verbatim>\<open>DoesNotExist\<close>
  when there is none, \<^verbatim>\<open>MultipleObjectsReturned\<close> when there are several.
\<close>

definition objects_get :: "('a \<Rightarrow> bool) \<Rightarrow> 'a list \<Rightarrow> error + 'a" where
  "objects_get P rows =
     (case filter P rows of
        [] \<Rightarrow> Inl DoesNotExist
      | [r] \<Rightarrow> Inr r
      | _ \<Rightarrow> Inl MultipleObjectsReturned)"

text \<open>
  \<^verbatim>\<open>self.save(update_fields=[...])\<close> on a user: an UPDATE of the named columns of
  the rows with the object's primary key, which raises \<^verbatim>\<open>DatabaseError\<close> when it
  touches no row. The first argument copies the named fields of the object into a row.
\<close>

definition save_update_fields ::
  "(user \<Rightarrow> user \<Rightarrow> user) \<Rightarrow> user \<Rightarrow> db \<Rightarrow> error + db" where
  "save_update_fields copy self d =
     (if \<exists>r \<in> set (users d). uid r = uid self
      then Inr (d\<lparr>users := map (\<lambda>r. if uid r = uid self then copy self r else r) (users d)\<rparr>)
      else Inl DatabaseError)"

definition copy_lockout :: "user \<Rightarrow> user \<Rightarrow> user" where
  "copy_lockout self r =
     r\<lparr>failed_login_attempts := failed_login_attempts self,
       locked_until := locked_until self\<rparr>"

definition copy_active_sessions :: "user \<Rightarrow> user \<Rightarrow> user" where
  "copy_active_sessions self r = r\<lparr>active_sessions := active_sessions self\<rparr>"

definition copy_last_login :: "user \<Rightarrow> user \<Rightarrow> user" where
  "copy_last_login self r =
     r\<lparr>last_login := last_login self,
       last_login_ip := last_login_ip self,
       last_login_user_agent := last_login_user_agent self\<rparr>"

section \<open>Methods of User\<close>

definition is_account_locked :: "datetime \<Rightarrow> user \<Rightarrow> bool" where
  "is_account_locked now self =
     (case locked_until self of
        None \<Rightarrow> False
      | Some t \<Rightarrow> if t > now then True else False)"

definition increment_failed_login :: "datetime \<Rightarrow> user \<Rightarrow> db \<Rightarrow> error + user \<times> db" where
  "increment_failed_login now self d =
     (let self1 = self\<lparr>failed_login_attempts := failed_login_attempts self + 1\<rparr>;
          self2 = (if failed_login_attempts self1 \<ge> 5
                   then self1\<lparr>locked_until := Some (now + timedelta_minutes 30)\<rparr>
                   else self1)
      in case save_update_fields copy_lockout self2 d of
           Inl e \<Rightarrow> Inl e
         | Inr d' \<Rightarrow> Inr (self2, d'))"

definition reset_failed_login :: "user \<Rightarrow> db \<Rightarrow> error + user \<times> db" where
  "reset_failed_login self d =
     (let self1 = self\<lparr>failed_login_attempts := 0\<rparr>;
          self2 = self1\<lparr>locked_until := None\<rparr>
      in case save_update_fields copy_lockout self2 d of
           Inl e \<Rightarrow> Inl e
         | Inr d' \<Rightarrow> Inr (self2, d'))"

text \<open>The Python slice \<^verbatim>\<open>xs[-n:]\<close> for \<open>n > 0\<close>: the last \<open>n\<close> elements, or all of them.\<close>

definition slice_last :: "nat \<Rightarrow> 'a list \<Rightarrow> 'a list" where
  "slice_last n xs = drop (length xs - n) xs"

definition add_session ::
  "datetime \<Rightarrow> string \<Rightarrow> string \<Rightarrow> string \<Rightarrow> user \<Rightarrow> db \<Rightarrow> error + user \<times> db" where
  "add_session now session_id ip_address user_agent self d =
     (let session = \<lparr>ss_id = session_id, ss_ip_address = ip_address,
                     ss_user_agent = user_agent, ss_created_at = now\<rparr>;
          self1 = self\<lparr>active_sessions := active_sessions self @ [session]\<rparr>;
          self2 = self1\<lparr>active_sessions := slice_last 10 (active_sessions self1)\<rparr>
      in case save_update_fields copy_active_sessions self2 d of
           Inl e \<Rightarrow> Inl e
         | Inr d' \<Rightarrow> Inr (self2, d'))"

section \<open>Role\<close>

text \<open>
  A role row: its primary key, the primary keys of the permissions linked to it, and
  the foreign key \<^verbatim>\<open>parent_role\<close>. The role table maps a primary key to its row.
\<close>

record role =
  role_id :: nat
  permissions :: "nat set"
  parent_role :: "nat option"

text \<open>
  \<^verbatim>\<open>Role.get_all_permissions\<close> calls itself on the parent with no bound on the depth, so
  the model is a partial function: \<open>None\<close> is a call that does not return.
  Reading \<^verbatim>\<open>self.parent_role\<close> fetches the parent row by its key and raises
  \<^verbatim>\<open>DoesNotExist\<close> when the key is dangling.
\<close>

partial_function (option) get_all_permissions ::
  "(nat \<rightharpoonup> role) \<Rightarrow> role \<Rightarrow> (error + nat set) option" where
  "get_all_permissions roles self =
     (case parent_role self of
        None \<Rightarrow> Some (Inr (permissions self))
      | Some pid \<Rightarrow>
          (case roles pid of
             None \<Rightarrow> Some (Inl DoesNotExist)
           | Some parent \<Rightarrow>
               Option.bind (get_all_permissions roles parent)
                 (\<lambda>res. Some (case res of
                                Inl e \<Rightarrow> Inl e
                              | Inr inherited \<Rightarrow> Inr (permissions self \<union> inherited)))))"

text \<open>
  The roles met by following \<^verbatim>\<open>parent_role\<close> from a role up to a role without
  parent, when at most \<open>n\<close> links lead there and every key resolves.
\<close>

fun parent_chain :: "nat \<Rightarrow> (nat \<rightharpoonup> role) \<Rightarrow> role \<Rightarrow> role list option" where
  "parent_chain 0 roles self =
     (case parent_role self of
        None \<Rightarrow> Some [self]
      | Some pid \<Rightarrow> None)"
| "parent_chain (Suc m) roles self =
     (case parent_role self of
        None \<Rightarrow> Some [self]
      | Some pid \<Rightarrow>
          (case roles pid of
             None \<Rightarrow> None
           | Some parent \<Rightarrow> map_option ((#) self) (parent_chain m roles parent)))"

section \<open>PasswordResetToken\<close>

definition is_valid :: "datetime \<Rightarrow> password_reset_token \<Rightarrow> bool" where
  "is_valid now self =
     (if prt_is_used self \<or> prt_is_revoked self then False
      else if prt_expires_at self < now then False
      else True)"

definition mark_as_used ::
  "datetime \<Rightarrow> password_reset_token \<Rightarrow> db \<Rightarrow> error + password_reset_token \<times> db" where
  "mark_as_used now self d =
     (let self1 = self\<lparr>prt_is_used := True\<rparr>;
          self2 = self1\<lparr>prt_used_at := Some now\<rparr>
      in if \<exists>r \<in> set (password_reset_tokens d). prt_id r = prt_id self
         then Inr (self2,
                d\<lparr>password_reset_tokens :=
                    map (\<lambda>r. if prt_id r = prt_id self
                              then r\<lparr>prt_is_used := prt_is_used self2,
                                     prt_used_at := prt_used_at self2\<rparr>
                              else r)
                      (password_reset_tokens d)\<rparr>)
         else Inl DatabaseError)"

section \<open>Table inserts and bulk updates\<close>

text \<open>
  \<^verbatim>\<open>objects.create\<close> appends a row and raises \<^verbatim>\<open>IntegrityError\<close> when a primary
  key or a unique column is taken. \<^verbatim>\<open>LoginHistory\<close> has no unique column besides its
  random key, which the model leaves out.
\<close>

definition LoginHistory_create :: "login_history \<Rightarrow> db \<Rightarrow> db" where
  "LoginHistory_create row d = d\<lparr>login_histories := login_histories d @ [row]\<rparr>"

definition UserSession_create :: "user_session \<Rightarrow> db \<Rightarrow> error + user_session \<times> db" where
  "UserSession_create row d =
     (if \<exists>r \<in> set (user_sessions d).
           us_id r = us_id row \<or> us_session_key r = us_session_key row
      then Inl IntegrityError
      else Inr (row, d\<lparr>user_sessions := user_sessions d @ [row]\<rparr>))"

definition PasswordResetToken_create ::
  "password_reset_token \<Rightarrow> db \<Rightarrow> error + password_reset_token \<times> db" where
  "PasswordResetToken_create row d =
     (if \<exists>r \<in> set (password_reset_tokens d).
           prt_id r = prt_id row \<or> prt_token r = prt_token row
      then Inl IntegrityError
      else Inr (row, d\<lparr>password_reset_tokens := password_reset_tokens d @ [row]\<rparr>))"

definition User_insert :: "user \<Rightarrow> db \<Rightarrow> error + user \<times> db" where
  "User_insert row d =
     (if \<exists>r \<in> set (users d). uid r = uid row \<or> email r = email row
      then Inl IntegrityError
      else Inr (row, d\<lparr>users := users d @ [row]\<rparr>))"

text \<open>
  \<^verbatim>\<open>user.save()\<close> with no field list: every column of the row with the object's key
  is written, and the object is inserted when no row has its key.
\<close>

definition User_save :: "user \<Rightarrow> db \<Rightarrow> error + user \<times> db" where
  "User_save self d =
     (if \<exists>r \<in> set (users d). uid r = uid self
      then Inr (self, d\<lparr>users := map (\<lambda>r. if uid r = uid self then self else r) (users d)\<rparr>)
      else User_insert self d)"

text \<open>
  \<^verbatim>\<open>UserSession.objects.filter(user=user, is_active=True).update(is_active=False,
  revoked_at=now)\<close>.
\<close>

definition revoke_active_sessions :: "datetime \<Rightarrow> nat \<Rightarrow> db \<Rightarrow> db" where
  "revoke_active_sessions now u d =
     d\<lparr>user_sessions :=
         map (\<lambda>s. if us_user s = u \<and> us_is_active s
                   then s\<lparr>us_is_active := False, us_revoked_at := Some now\<rparr>
                   else s)
           (user_sessions d)\<rparr>"

section \<open>Views\<close>

text \<open>
  What a view reads from the HTTP request: the fields of \<^verbatim>\<open>request.data\<close>, the
  client address from \<^verbatim>\<open>get_client_ip\<close>, the \<^verbatim>\<open>HTTP_USER_AGENT\<close> header and the
  key of the framework session.
\<close>

record request =
  data_email :: string
  data_password :: string
  data_token :: string
  data_new_password :: string
  client_ip :: string
  http_user_agent :: string
  session_key :: "string option"

datatype body =
    ErrorBody string
  | MessageBody string
  | UserBody nat
  | LoginBody string string nat nat datetime

datatype response = Response nat body

text \<open>
  What \<^verbatim>\<open>RefreshToken.for_user\<close> hands out. \<^verbatim>\<open>refresh.access_token\<close> is a property
  that builds a new access token each time it is read: \<open>access_token refresh n\<close> is
  the string of the read after \<open>n\<close> earlier ones, \<open>refresh_str\<close> is \<^verbatim>\<open>str(refresh)\<close>.
\<close>

record refresh_token =
  access_token :: "nat \<Rightarrow> string"
  refresh_str :: string

subsection \<open>AuthenticationView.post\<close>

text \<open>
  \<^verbatim>\<open>django.contrib.auth.authenticate\<close> runs the configured backends, which are not part
  of these sources: it is the parameter \<open>authenticate\<close>, from the database, the
  email and the password to the user it accepts. The first definition is the part of
  \<^verbatim>\<open>post\<close> from the call of \<^verbatim>\<open>authenticate\<close> on; \<open>post\<close> is the whole view.
  The session key is the framework session's key or, when that is missing or empty,
  a first read of \<^verbatim>\<open>refresh.access_token\<close>; the token id of the session and the
  \<^verbatim>\<open>access\<close> field of the response are the next two reads.
  Mail, task queue and audit log are outside the state and left out.
\<close>

definition post_authenticate ::
  "(db \<Rightarrow> string \<Rightarrow> string \<Rightarrow> user option) \<Rightarrow> refresh_token \<Rightarrow> nat \<Rightarrow> datetime \<Rightarrow>
   request \<Rightarrow> db \<Rightarrow> error + response \<times> db" where
  "post_authenticate authenticate refresh new_id now req d =
     (case authenticate d (data_email req) (data_password req) of
        None \<Rightarrow>
          if filter (\<lambda>u. email u = data_email req) (users d) \<noteq> []
          then
            (case objects_get (\<lambda>u. email u = data_email req) (users d) of
               Inl e \<Rightarrow> Inl e
             | Inr target_user \<Rightarrow>
                 (case increment_failed_login now target_user d of
                    Inl e \<Rightarrow> Inl e
                  | Inr (target_user', d1) \<Rightarrow>
                      Inr (Response 401 (ErrorBody ''Invalid credentials''),
                           LoginHistory_create
                             \<lparr>lh_user = Some (uid target_user'), lh_email = data_email req,
                              lh_success = False, lh_failure_reason = ''invalid_credentials'',
                              lh_ip_address = client_ip req,
                              lh_user_agent = http_user_agent req,
                              lh_attempted_at = now\<rparr> d1)))
          else Inr (Response 401 (ErrorBody ''Invalid credentials''), d)
      | Some user \<Rightarrow>
          if \<not> is_active user
          then Inr (Response 403 (ErrorBody ''Account is inactive''),
                    LoginHistory_create
                      \<lparr>lh_user = Some (uid user), lh_email = data_email req,
                       lh_success = False, lh_failure_reason = ''inactive_account'',
                       lh_ip_address = client_ip req, lh_user_agent = http_user_agent req,
                       lh_attempted_at = now\<rparr> d)
          else
            (case reset_failed_login user d of
               Inl e \<Rightarrow> Inl e
             | Inr (user1, d1) \<Rightarrow>
                 (case (case session_key req of
                          None \<Rightarrow> (access_token refresh 0, Suc 0)
                        | Some k \<Rightarrow> if k = [] then (access_token refresh 0, Suc 0) else (k, 0)) of
                    (key, reads) \<Rightarrow>
                 (case UserSession_create
                         \<lparr>us_id = new_id, us_user = uid user1,
                          us_session_key = key,
                          us_jwt_token_id = access_token refresh reads,
                          us_ip_address = client_ip req,
                          us_user_agent = http_user_agent req,
                          us_created_at = now,
                          us_expires_at = now + timedelta_days 7,
                          us_revoked_at = None, us_is_active = True\<rparr> d1 of
                    Inl e \<Rightarrow> Inl e
                  | Inr (session, d2) \<Rightarrow>
                      (let d3 = LoginHistory_create
                                  \<lparr>lh_user = Some (uid user1), lh_email = data_email req,
                                   lh_success = True, lh_failure_reason = [],
                                   lh_ip_address = client_ip req,
                                   lh_user_agent = http_user_agent req,
                                   lh_attempted_at = now\<rparr> d2;
                           user2 = user1\<lparr>last_login := Some now,
                                         last_login_ip := Some (client_ip req),
                                         last_login_user_agent := http_user_agent req\<rparr>
                       in case save_update_fields copy_last_login user2 d3 of
                            Inl e \<Rightarrow> Inl e
                          | Inr d4 \<Rightarrow>
                              Inr (Response 200
                                     (LoginBody (access_token refresh (Suc reads))
                                        (refresh_str refresh)
                                        (uid user2) (us_id session) (us_expires_at session)),
                                   d4))))))"

definition post ::
  "(db \<Rightarrow> string \<Rightarrow> string \<Rightarrow> user option) \<Rightarrow> refresh_token \<Rightarrow> nat \<Rightarrow> datetime \<Rightarrow>
   request \<Rightarrow> db \<Rightarrow> error + response \<times> db" where
  "post authenticate refresh new_id now req d =
     (case objects_get (\<lambda>u. email u = data_email req) (users d) of
        Inl DoesNotExist \<Rightarrow> post_authenticate authenticate refresh new_id now req d
      | Inl e \<Rightarrow> Inl e
      | Inr user \<Rightarrow>
          if is_account_locked now user
          then Inr (Response 423 (ErrorBody ''Account is locked. Please try again later.''),
                    LoginHistory_create
                      \<lparr>lh_user = Some (uid user), lh_email = data_email req,
                       lh_success = False, lh_failure_reason = ''account_locked'',
                       lh_ip_address = client_ip req, lh_user_agent = http_user_agent req,
                       lh_attempted_at = now\<rparr> d)
          else post_authenticate authenticate refresh new_id now req d)"

subsection \<open>UserViewSet.create\<close>

record tenant_row =
  tenant_id :: nat
  max_users :: int

text \<open>
  The serializer is not part of these sources: \<open>serializer_is_valid\<close> is the outcome of
  its validation and \<open>instance\<close> the user it builds from the request data, which
  \<^verbatim>\<open>serializer.save(tenant=tenant)\<close> inserts with the tenant set.
\<close>

definition create :: "bool \<Rightarrow> user \<Rightarrow> tenant_row \<Rightarrow> db \<Rightarrow> error + response \<times> db" where
  "create serializer_is_valid instance request_tenant d =
     (if \<not> serializer_is_valid then Inl ValidationError
      else if max_users request_tenant
                \<le> int (length (filter (\<lambda>u. tenant u = tenant_id request_tenant) (users d)))
      then Inr (Response 403 (ErrorBody ''Tenant user limit reached''), d)
      else
        (case User_insert (instance\<lparr>tenant := tenant_id request_tenant\<rparr>) d of
           Inl e \<Rightarrow> Inl e
         | Inr (user, d1) \<Rightarrow> Inr (Response 201 (UserBody (uid user)), d1)))"

subsection \<open>PasswordResetView\<close>

text \<open>
  \<open>token_urlsafe\<close> is the string drawn by \<^verbatim>\<open>secrets.token_urlsafe(32)\<close> and
  \<open>new_id\<close> the key drawn for the new row.
\<close>

definition request_reset ::
  "string \<Rightarrow> nat \<Rightarrow> datetime \<Rightarrow> request \<Rightarrow> db \<Rightarrow> error + response \<times> db" where
  "request_reset token_urlsafe new_id now req d =
     (case objects_get (\<lambda>u. email u = data_email req) (users d) of
        Inl DoesNotExist \<Rightarrow>
          Inr (Response 200
                 (MessageBody ''If the email exists, a password reset link has been sent.''), d)
      | Inl e \<Rightarrow> Inl e
      | Inr user \<Rightarrow>
          (case PasswordResetToken_create
                  \<lparr>prt_id = new_id, prt_user = uid user, prt_token = token_urlsafe,
                   prt_created_at = now, prt_expires_at = now + timedelta_hours 1,
                   prt_used_at = None, prt_ip_address = client_ip req,
                   prt_user_agent = http_user_agent req,
                   prt_is_used = False, prt_is_revoked = False\<rparr> d of
             Inl e \<Rightarrow> Inl e
           | Inr (token, d1) \<Rightarrow>
               Inr (Response 200
                      (MessageBody ''If the email exists, a password reset link has been sent.''),
                    d1)))"

text \<open>
  \<open>make_password\<close> is the password hasher behind \<^verbatim>\<open>set_password\<close>;
  \<open>serializer_is_valid\<close> is the outcome of \<^verbatim>\<open>PasswordResetSerializer\<close>'s validation,
  after which the token and the new password are the request's.
\<close>

definition reset_password ::
  "(string \<Rightarrow> string) \<Rightarrow> bool \<Rightarrow> datetime \<Rightarrow> request \<Rightarrow> db \<Rightarrow> error + response \<times> db" where
  "reset_password make_password serializer_is_valid now req d =
     (if \<not> serializer_is_valid then Inl ValidationError
      else
        (case objects_get
                (\<lambda>t. prt_token t = data_token req \<and> prt_is_used t = False
                       \<and> prt_is_revoked t = False)
                (password_reset_tokens d) of
           Inl DoesNotExist \<Rightarrow> Inr (Response 400 (ErrorBody ''Invalid token''), d)
         | Inl e \<Rightarrow> Inl e
         | Inr reset_token \<Rightarrow>
             if \<not> is_valid now reset_token
             then Inr (Response 400 (ErrorBody ''Invalid or expired token''), d)
             else
               (case objects_get (\<lambda>u. uid u = prt_user reset_token) (users d) of
                  Inl e \<Rightarrow> Inl e
                | Inr user \<Rightarrow>
                    (case User_save
                            (user\<lparr>password := make_password (data_new_password req),
                                  password_changed_at := Some now,
                                  must_change_password := False\<rparr>) d of
                       Inl e \<Rightarrow> Inl e
                     | Inr (user1, d1) \<Rightarrow>
                         (case mark_as_used now reset_token d1 of
                            Inl e \<Rightarrow> Inl e
                          | Inr (reset_token1, d2) \<Rightarrow>
                              Inr (Response 200 (MessageBody ''Password reset successful''),
                                   revoke_active_sessions now (uid user1) d2))))))"

text \<open>
  The view opens no transaction and the settings do not wrap requests in one, so each
  of its three writes is committed when it is made: \<^verbatim>\<open>user.save()\<close>, then
  \<^verbatim>\<open>reset_token.mark_as_used()\<close>, then the update of the sessions. This is the list of
  the database states that a call of \<^verbatim>\<open>reset_password\<close> commits, in order; another
  request may run in any of them.
\<close>

definition reset_password_writes ::
  "(string \<Rightarrow> string) \<Rightarrow> bool \<Rightarrow> datetime \<Rightarrow> request \<Rightarrow> db \<Rightarrow> db list" where
  "reset_password_writes make_password serializer_is_valid now req d =
     (if \<not> serializer_is_valid then []
      else
        (case objects_get
                (\<lambda>t. prt_token t = data_token req \<and> prt_is_used t = False
                       \<and> prt_is_revoked t = False)
                (password_reset_tokens d) of
           Inl e \<Rightarrow> []
         | Inr reset_token \<Rightarrow>
             if \<not> is_valid now reset_token then []
             else
               (case objects_get (\<lambda>u. uid u = prt_user reset_token) (users d) of
                  Inl e \<Rightarrow> []
                | Inr user \<Rightarrow>
                    (case User_save
                            (user\<lparr>password := make_password (data_new_password req),
                                  password_changed_at := Some now,
                                  must_change_password := False\<rparr>) d of
                       Inl e \<Rightarrow> []
                     | Inr (user1, d1) \<Rightarrow>
                         (case mark_as_used now reset_token d1 of
                            Inl e \<Rightarrow> [d1]
                          | Inr (reset_token1, d2) \<Rightarrow>
                              [d1, d2, revoke_active_sessions now (uid user1) d2])))))"

section \<open>Scenarios and example states\<close>

text \<open>
  Consecutive failed logins of one user: \<^verbatim>\<open>increment_failed_login\<close> called once at each
  of the given times, on the object the call before it left.
\<close>

fun record_failed_logins :: "datetime list \<Rightarrow> user \<Rightarrow> db \<Rightarrow> error + user \<times> db" where
  "record_failed_logins [] self d = Inr (self, d)"
| "record_failed_logins (now # ts) self d =
     (case increment_failed_login now self d of
        Inl e \<Rightarrow> Inl e
      | Inr (self', d') \<Rightarrow> record_failed_logins ts self' d')"

text \<open>The table has a row for the user, and each such row holds the object's lockout fields.\<close>

definition lockout_stored :: "user \<Rightarrow> db \<Rightarrow> bool" where
  "lockout_stored self d \<longleftrightarrow>
     (\<exists>r \<in> set (users d). uid r = uid self)
     \<and> (\<forall>r \<in> set (users d). uid r = uid self \<longrightarrow>
           failed_login_attempts r = failed_login_attempts self
           \<and> locked_until r = locked_until self)"

definition alice :: user where
  "alice = \<lparr>uid = 1, tenant = 1, email = ''a@x.io'', password = ''h:pw'', is_active = True,
     failed_login_attempts = 0, locked_until = None, password_changed_at = None,
     must_change_password = False, active_sessions = [], last_login = None,
     last_login_ip = None, last_login_user_agent = []\<rparr>"

definition db0 :: db where
  "db0 = \<lparr>users = [alice], login_histories = [], user_sessions = [],
     password_reset_tokens = []\<rparr>"

definition alice_locked :: user where
  "alice_locked = alice\<lparr>failed_login_attempts := 7, locked_until := Some 900\<rparr>"

definition db_locked :: db where
  "db_locked = db0\<lparr>users := [alice_locked]\<rparr>"

definition alice_expired :: user where
  "alice_expired = alice\<lparr>failed_login_attempts := 5, locked_until := Some 900\<rparr>"

definition db_expired :: db where
  "db_expired = db0\<lparr>users := [alice_expired]\<rparr>"

definition session_n :: "int \<Rightarrow> session_summary" where
  "session_n i = \<lparr>ss_id = ''s'', ss_ip_address = ''10.0.0.1'', ss_user_agent = ''ua'',
     ss_created_at = i\<rparr>"

definition alice_full :: user where
  "alice_full = alice\<lparr>active_sessions := map session_n [1, 2, 3, 4, 5, 6, 7, 8, 9, 10]\<rparr>"

definition db_full :: db where
  "db_full = db0\<lparr>users := [alice_full]\<rparr>"

text \<open>
  A stand-in for the authentication backends: it accepts the one user with the email
  when the stored hash is that of the password and the user is active.
\<close>

definition example_hasher :: "string \<Rightarrow> string" where
  "example_hasher p = ''h:'' @ p"

definition example_authenticate :: "db \<Rightarrow> string \<Rightarrow> string \<Rightarrow> user option" where
  "example_authenticate d e p =
     (case filter (\<lambda>u. email u = e) (users d) of
        [u] \<Rightarrow> if password u = example_hasher p \<and> is_active u then Some u else None
      | _ \<Rightarrow> None)"

definition req_alice :: request where
  "req_alice = \<lparr>data_email = ''a@x.io'', data_password = ''pw'', data_token = [],
     data_new_password = [], client_ip = ''10.0.0.2'', http_user_agent = ''ua'',
     session_key = None\<rparr>"

definition req_alice_wrong :: request where
  "req_alice_wrong = req_alice\<lparr>data_password := ''no''\<rparr>"

definition req_nobody :: request where
  "req_nobody = req_alice\<lparr>data_email := ''n@x.io''\<rparr>"

definition example_refresh :: refresh_token where
  "example_refresh =
     \<lparr>access_token = (\<lambda>n. if n = 0 then ''acc0'' else if n = 1 then ''acc1'' else ''acc2''),
      refresh_str = ''ref''\<rparr>"

text \<open>The tokens of a user that satisfy \<^verbatim>\<open>is_valid()\<close> at a time.\<close>

definition valid_tokens_of :: "datetime \<Rightarrow> nat \<Rightarrow> db \<Rightarrow> password_reset_token list" where
  "valid_tokens_of now u d =
     filter (\<lambda>t. prt_user t = u \<and> is_valid now t) (password_reset_tokens d)"

definition tok1 :: password_reset_token where
  "tok1 = \<lparr>prt_id = 1, prt_user = 1, prt_token = ''t1'', prt_created_at = 0,
     prt_expires_at = 3600000000, prt_used_at = None, prt_ip_address = ''10.0.0.2'',
     prt_user_agent = ''ua'', prt_is_used = False, prt_is_revoked = False\<rparr>"

definition tok2 :: password_reset_token where
  "tok2 = \<lparr>prt_id = 2, prt_user = 1, prt_token = ''t2'', prt_created_at = 10,
     prt_expires_at = 3600000010, prt_used_at = None, prt_ip_address = ''10.0.0.2'',
     prt_user_agent = ''ua'', prt_is_used = False, prt_is_revoked = False\<rparr>"

definition db_tok :: db where
  "db_tok = db0\<lparr>password_reset_tokens := [tok1]\<rparr>"

definition db_tok2 :: db where
  "db_tok2 = db0\<lparr>password_reset_tokens := [tok1, tok2]\<rparr>"

definition req_consume :: request where
  "req_consume = req_alice\<lparr>data_token := ''t1'', data_new_password := ''new''\<rparr>"

definition alice_new :: user where
  "alice_new = alice\<lparr>password := ''h:new'', password_changed_at := Some 20,
     must_change_password := False\<rparr>"

definition db_tok3 :: db where
  "db_tok3 = db0\<lparr>users := [alice_new],
     password_reset_tokens := [tok1\<lparr>prt_is_used := True, prt_used_at := Some 20\<rparr>, tok2]\<rparr>"

text \<open>
  The number of users of a tenant, which \<^verbatim>\<open>create\<close> compares with \<^verbatim>\<open>max_users\<close>, and
  the number of its active users.
\<close>

definition tenant_user_count :: "tenant_row \<Rightarrow> db \<Rightarrow> nat" where
  "tenant_user_count t d = length (filter (\<lambda>u. tenant u = tenant_id t) (users d))"

definition active_user_count :: "tenant_row \<Rightarrow> db \<Rightarrow> nat" where
  "active_user_count t d =
     length (filter (\<lambda>u. tenant u = tenant_id t \<and> is_active u) (users d))"

definition tenant1 :: tenant_row where
  "tenant1 = \<lparr>tenant_id = 1, max_users = 1\<rparr>"

definition tenant2 :: tenant_row where
  "tenant2 = \<lparr>tenant_id = 1, max_users = 2\<rparr>"

definition alice_inactive :: user where
  "alice_inactive = alice\<lparr>is_active := False\<rparr>"

definition db_inactive :: db where
  "db_inactive = db0\<lparr>users := [alice_inactive]\<rparr>"

definition bob :: user where
  "bob = alice\<lparr>uid := 2, tenant := 0, email := ''b@x.io''\<rparr>"

text \<open>
  Two roles that are each other's parent, and a role with a parent that has none; both
  roles of the second hierarchy hold permission 11.
\<close>

definition role_A :: role where
  "role_A = \<lparr>role_id = 2, permissions = {10}, parent_role = Some 3\<rparr>"

definition role_B :: role where
  "role_B = \<lparr>role_id = 3, permissions = {20}, parent_role = Some 2\<rparr>"

definition cyclic_roles :: "nat \<rightharpoonup> role" where
  "cyclic_roles = [2 \<mapsto> role_A, 3 \<mapsto> role_B]"

definition role_editor :: role where
  "role_editor = \<lparr>role_id = 5, permissions = {10, 11}, parent_role = Some 6\<rparr>"

definition role_viewer :: role where
  "role_viewer = \<lparr>role_id = 6, permissions = {11, 20}, parent_role = None\<rparr>"

definition tree_roles :: "nat \<rightharpoonup> role" where
  "tree_roles = [5 \<mapsto> role_editor, 6 \<mapsto> role_viewer]"

text \<open>
  The state after the first write of a reset of Alice's password with the token
  \<open>tok1\<close> at time 20, the state after the second, and a second request with the same
  token and another password.
\<close>

definition db_mid :: db where
  "db_mid = db0\<lparr>users := [alice_new], password_reset_tokens := [tok1]\<rparr>"

definition db_done :: db where
  "db_done = db0\<lparr>users := [alice_new],
     password_reset_tokens := [tok1\<lparr>prt_is_used := True, prt_used_at := Some 20\<rparr>]\<rparr>"

definition req_consume_again :: request where
  "req_consume_again = req_consume\<lparr>data_new_password := ''evil''\<rparr>"

definition alice_evil :: user where
  "alice_evil = alice\<lparr>password := ''h:evil'', password_changed_at := Some 21,
     must_change_password := False\<rparr>"

definition db_twice :: db where
  "db_twice = db0\<lparr>users := [alice_evil],
     password_reset_tokens := [tok1\<lparr>prt_is_used := True, prt_used_at := Some 21\<rparr>]\<rparr>"

section \<open>Auxiliary facts\<close>

subsection \<open>Updating the rows with a given key\<close>

lemma set_update_rows:
  "set (map (\<lambda>r. if P r then f r else r) xs) = f ` {r \<in> set xs. P r} \<union> {r \<in> set xs. \<not> P r}"
  by auto

lemma update_rows_mem:
  "r \<in> set xs \<Longrightarrow> P r \<Longrightarrow> f r \<in> set (map (\<lambda>r. if P r then f r else r) xs)"
  by (simp add: set_update_rows)

lemma update_rows_ex:
  assumes "\<exists>r \<in> set xs. key r = k" and "\<And>r. key (f r) = key r"
  shows "\<exists>r \<in> set (map (\<lambda>r. if key r = k then f r else r) xs). key r = k"
proof -
  from assms(1) obtain r where r: "r \<in> set xs" "key r = k" by blast
  then have "f r \<in> set (map (\<lambda>r. if key r = k then f r else r) xs)"
    by (simp add: set_update_rows)
  moreover have "key (f r) = k" using assms(2) r(2) by simp
  ultimately show ?thesis by blast
qed

lemma update_rows_all:
  assumes "\<And>r. key r = k \<Longrightarrow> Q (f r)" and "\<And>r. key (f r) = key r"
  shows "\<forall>r' \<in> set (map (\<lambda>r. if key r = k then f r else r) xs). key r' = k \<longrightarrow> Q r'"
  using assms by (auto simp add: set_update_rows)

subsection \<open>The lockout methods, when the user's row exists\<close>

lemma save_update_fields_Inr:
  "\<exists>r \<in> set (users d). uid r = uid self \<Longrightarrow>
   save_update_fields copy self d =
     Inr (d\<lparr>users := map (\<lambda>r. if uid r = uid self then copy self r else r) (users d)\<rparr>)"
  by (simp add: save_update_fields_def)

lemma increment_failed_login_Inr:
  assumes "\<exists>r \<in> set (users d). uid r = uid self"
  shows "increment_failed_login now self d =
     Inr (self\<lparr>failed_login_attempts := failed_login_attempts self + 1,
               locked_until := (if failed_login_attempts self + 1 \<ge> 5
                                then Some (now + timedelta_minutes 30)
                                else locked_until self)\<rparr>,
          d\<lparr>users := map (\<lambda>r. if uid r = uid self
               then r\<lparr>failed_login_attempts := failed_login_attempts self + 1,
                  locked_until := (if failed_login_attempts self + 1 \<ge> 5
                                then Some (now + timedelta_minutes 30)
                                else locked_until self)\<rparr> else r) (users d)\<rparr>)"
  using assms
  by (auto simp add: increment_failed_login_def Let_def save_update_fields_def copy_lockout_def)

lemma reset_failed_login_Inr:
  assumes "\<exists>r \<in> set (users d). uid r = uid self"
  shows "reset_failed_login self d =
     Inr (self\<lparr>failed_login_attempts := 0, locked_until := None\<rparr>,
          d\<lparr>users := map (\<lambda>r. if uid r = uid self
               then r\<lparr>failed_login_attempts := 0, locked_until := None\<rparr> else r) (users d)\<rparr>)"
  using assms
  by (auto simp add: reset_failed_login_def Let_def save_update_fields_def copy_lockout_def)

lemma timedelta_minutes_30_pos: "0 < timedelta_minutes 30"
  by (simp add: timedelta_minutes_def)

lemma increment_failed_login_step:
  assumes "\<exists>r \<in> set (users d). uid r = uid self"
  shows "\<exists>self' d'. increment_failed_login now self d = Inr (self', d')
           \<and> uid self' = uid self
           \<and> failed_login_attempts self' = failed_login_attempts self + 1
           \<and> locked_until self' =
                (if failed_login_attempts self + 1 \<ge> 5
                 then Some (now + timedelta_minutes 30) else locked_until self)
           \<and> lockout_stored self' d'"
proof -
  let ?n = "failed_login_attempts self + 1"
  let ?l = "if ?n \<ge> 5 then Some (now + timedelta_minutes 30) else locked_until self"
  let ?f = "\<lambda>r::user. r\<lparr>failed_login_attempts := ?n, locked_until := ?l\<rparr>"
  let ?us = "map (\<lambda>r. if uid r = uid self then ?f r else r) (users d)"
  have eq: "increment_failed_login now self d = Inr (?f self, d\<lparr>users := ?us\<rparr>)"
    by (rule increment_failed_login_Inr [OF assms])
  have ex: "\<exists>r \<in> set ?us. uid r = uid self"
    by (rule update_rows_ex [where key = uid, OF assms]) simp
  have all: "\<forall>r \<in> set ?us. uid r = uid self \<longrightarrow>
      failed_login_attempts r = ?n \<and> locked_until r = ?l"
    by (rule update_rows_all [where key = uid
          and Q = "\<lambda>r. failed_login_attempts r = ?n \<and> locked_until r = ?l"]) simp_all
  have us: "users (d\<lparr>users := ?us\<rparr>) = ?us" by simp
  have fs: "failed_login_attempts (?f self) = ?n" "locked_until (?f self) = ?l"
    "uid (?f self) = uid self" by simp_all
  have st: "lockout_stored (?f self) (d\<lparr>users := ?us\<rparr>)"
    unfolding lockout_stored_def us fs using ex all by blast
  show ?thesis
  proof (intro exI conjI)
    show "increment_failed_login now self d = Inr (?f self, d\<lparr>users := ?us\<rparr>)" by (rule eq)
    show "uid (?f self) = uid self" by simp
    show "failed_login_attempts (?f self) = ?n" by simp
    show "locked_until (?f self) = ?l" by simp
    show "lockout_stored (?f self) (d\<lparr>users := ?us\<rparr>)" by (rule st)
  qed
qed

lemma lockout_stored_row: "lockout_stored self d \<Longrightarrow> \<exists>r \<in> set (users d). uid r = uid self"
  by (simp add: lockout_stored_def)

lemma record_failed_logins_count:
  assumes "\<exists>r \<in> set (users d). uid r = uid self"
    and "locked_until self = None"
    and "failed_login_attempts self + int (length ts) \<le> 5"
  shows "\<exists>self' d'. record_failed_logins ts self d = Inr (self', d')
           \<and> uid self' = uid self
           \<and> failed_login_attempts self' = failed_login_attempts self + int (length ts)
           \<and> locked_until self' =
                (if ts \<noteq> [] \<and> failed_login_attempts self + int (length ts) = 5
                 then Some (last ts + timedelta_minutes 30) else None)
           \<and> (ts \<noteq> [] \<longrightarrow> lockout_stored self' d')"
  using assms
proof (induction ts arbitrary: self d)
  case Nil
  then show ?case by simp
next
  case (Cons t ts)
  from increment_failed_login_step [OF Cons.prems(1), of t]
  obtain s1 d1 where step: "increment_failed_login t self d = Inr (s1, d1)"
    and u1: "uid s1 = uid self"
    and f1: "failed_login_attempts s1 = failed_login_attempts self + 1"
    and l1: "locked_until s1 =
                (if failed_login_attempts self + 1 \<ge> 5
                 then Some (t + timedelta_minutes 30) else locked_until self)"
    and st1: "lockout_stored s1 d1"
    by blast
  have rec: "record_failed_logins (t # ts) self d = record_failed_logins ts s1 d1"
    using step by simp
  show ?case
  proof (cases ts)
    case Nil
    have "record_failed_logins (t # ts) self d = Inr (s1, d1)"
      using rec Nil by simp
    moreover have "locked_until s1 =
        (if failed_login_attempts self + int (length (t # ts)) = 5
         then Some (last (t # ts) + timedelta_minutes 30) else None)"
      using l1 Nil Cons.prems(2,3) by simp
    ultimately show ?thesis
      using u1 f1 st1 Nil by simp
  next
    case (Cons t' ts')
    have small: "failed_login_attempts self + 1 < 5"
      using Cons.prems(3) Cons by simp
    have l1': "locked_until s1 = None"
      using l1 small Cons.prems(2) by simp
    have b1: "failed_login_attempts s1 + int (length ts) \<le> 5"
      using f1 Cons.prems(3) by simp
    from Cons.IH [OF lockout_stored_row [OF st1] l1' b1]
    obtain s2 d2 where r2: "record_failed_logins ts s1 d1 = Inr (s2, d2)"
      and u2: "uid s2 = uid s1"
      and f2: "failed_login_attempts s2 = failed_login_attempts s1 + int (length ts)"
      and l2: "locked_until s2 =
                (if ts \<noteq> [] \<and> failed_login_attempts s1 + int (length ts) = 5
                 then Some (last ts + timedelta_minutes 30) else None)"
      and st2: "ts \<noteq> [] \<longrightarrow> lockout_stored s2 d2"
      by blast
    show ?thesis
    proof (intro exI conjI)
      show "record_failed_logins (t # ts) self d = Inr (s2, d2)"
        using rec r2 by simp
      show "uid s2 = uid self" using u2 u1 by simp
      show "failed_login_attempts s2 = failed_login_attempts self + int (length (t # ts))"
        using f2 f1 by simp
      show "locked_until s2 =
          (if t # ts \<noteq> [] \<and> failed_login_attempts self + int (length (t # ts)) = 5
           then Some (last (t # ts) + timedelta_minutes 30) else None)"
        using l2 f1 Cons by simp
      show "t # ts \<noteq> [] \<longrightarrow> lockout_stored s2 d2"
        using st2 Cons by simp
    qed
  qed
qed

lemma add_session_Inr:
  assumes "\<exists>r \<in> set (users d). uid r = uid self"
  shows "add_session now sid ip ua self d =
     Inr (self\<lparr>active_sessions := slice_last 10 (active_sessions self @
                 [\<lparr>ss_id = sid, ss_ip_address = ip, ss_user_agent = ua, ss_created_at = now\<rparr>])\<rparr>,
          d\<lparr>users := map (\<lambda>r. if uid r = uid self
               then r\<lparr>active_sessions := slice_last 10 (active_sessions self @
                 [\<lparr>ss_id = sid, ss_ip_address = ip, ss_user_agent = ua, ss_created_at = now\<rparr>])\<rparr>
               else r) (users d)\<rparr>)"
  using assms
  by (auto simp add: add_session_def Let_def save_update_fields_def copy_active_sessions_def)

lemma slice_last_snoc:
  "slice_last 10 (xs @ [x]) = drop (length xs - 9) xs @ [x]"
  by (simp add: slice_last_def)

subsection \<open>Lookups by a unique column\<close>

lemma filter_key_unique:
  assumes "distinct (map key rows)" and "r \<in> set rows"
  shows "filter (\<lambda>x. key x = key r \<and> Q x) rows = (if Q r then [r] else [])"
  using assms
proof (induction rows)
  case Nil
  then show ?case by simp
next
  case (Cons a rows)
  show ?case
  proof (cases "a = r")
    case True
    have "key r \<notin> key ` set rows" using Cons.prems(1) True by simp
    then have "\<forall>x \<in> set rows. key x \<noteq> key r"
      by (metis imageI)
    then have "filter (\<lambda>x. key x = key r \<and> Q x) rows = []"
      by (simp add: filter_empty_conv)
    then show ?thesis using True by simp
  next
    case False
    then have mem: "r \<in> set rows" using Cons.prems(2) by simp
    have "key a \<notin> key ` set rows" using Cons.prems(1) by simp
    then have "key a \<noteq> key r" using mem by (metis imageI)
    moreover have "distinct (map key rows)" using Cons.prems(1) by simp
    ultimately show ?thesis using Cons.IH mem by simp
  qed
qed

lemma objects_get_unique:
  assumes "distinct (map key rows)" and "r \<in> set rows" and "key r = k"
  shows "objects_get (\<lambda>x. key x = k) rows = Inr r"
proof -
  have "filter (\<lambda>x. key x = key r \<and> True) rows = [r]"
    using filter_key_unique [OF assms(1,2), of "\<lambda>_. True"] by simp
  then show ?thesis using assms(3) by (simp add: objects_get_def)
qed

lemma objects_get_absent:
  assumes "k \<notin> key ` set rows"
  shows "objects_get (\<lambda>x. key x = k) rows = Inl DoesNotExist"
proof -
  have "\<forall>x \<in> set rows. key x \<noteq> k"
    using assms by (metis imageI)
  then have "filter (\<lambda>x. key x = k) rows = []"
    by (simp add: filter_empty_conv)
  then show ?thesis by (simp add: objects_get_def)
qed

subsection \<open>The branches of the login view\<close>

lemma post_locked:
  assumes "objects_get (\<lambda>u. email u = data_email req) (users d) = Inr user"
    and "is_account_locked now user"
  shows "post authenticate refresh new_id now req d =
     Inr (Response 423 (ErrorBody ''Account is locked. Please try again later.''),
          LoginHistory_create
            \<lparr>lh_user = Some (uid user), lh_email = data_email req,
             lh_success = False, lh_failure_reason = ''account_locked'',
             lh_ip_address = client_ip req, lh_user_agent = http_user_agent req,
             lh_attempted_at = now\<rparr> d)"
  using assms by (simp add: post_def)

lemma post_not_locked:
  assumes "objects_get (\<lambda>u. email u = data_email req) (users d) = Inr user"
    and "\<not> is_account_locked now user"
  shows "post authenticate refresh new_id now req d =
     post_authenticate authenticate refresh new_id now req d"
  using assms by (simp add: post_def)

lemma post_unknown:
  assumes "objects_get (\<lambda>u. email u = data_email req) (users d) = Inl DoesNotExist"
  shows "post authenticate refresh new_id now req d =
     post_authenticate authenticate refresh new_id now req d"
  using assms by (simp add: post_def)

lemma post_authenticate_unknown:
  assumes "authenticate d (data_email req) (data_password req) = None"
    and "data_email req \<notin> email ` set (users d)"
  shows "post_authenticate authenticate refresh new_id now req d =
     Inr (Response 401 (ErrorBody ''Invalid credentials''), d)"
proof -
  have "\<forall>u \<in> set (users d). email u \<noteq> data_email req"
    using assms(2) by (metis imageI)
  then have "filter (\<lambda>u. email u = data_email req) (users d) = []"
    by (simp add: filter_empty_conv)
  then show ?thesis using assms(1) by (simp add: post_authenticate_def)
qed

lemma post_authenticate_rejected:
  assumes "authenticate d (data_email req) (data_password req) = None"
    and "objects_get (\<lambda>u. email u = data_email req) (users d) = Inr user"
    and "increment_failed_login now user d = Inr (user', d1)"
  shows "post_authenticate authenticate refresh new_id now req d =
     Inr (Response 401 (ErrorBody ''Invalid credentials''),
          LoginHistory_create
            \<lparr>lh_user = Some (uid user'), lh_email = data_email req,
             lh_success = False, lh_failure_reason = ''invalid_credentials'',
             lh_ip_address = client_ip req, lh_user_agent = http_user_agent req,
             lh_attempted_at = now\<rparr> d1)"
proof -
  have "filter (\<lambda>u. email u = data_email req) (users d) \<noteq> []"
    using assms(2) by (auto simp add: objects_get_def split: list.splits)
  then show ?thesis using assms by (simp add: post_authenticate_def)
qed

lemma post_authenticate_success:
  assumes "authenticate d (data_email req) (data_password req) = Some user"
    and "is_active user" and "user \<in> set (users d)"
    and "\<not> (\<exists>r \<in> set (user_sessions d). us_id r = new_id
            \<or> us_session_key r =
                (case session_key req of
                   None \<Rightarrow> access_token refresh 0
                 | Some k \<Rightarrow> if k = [] then access_token refresh 0 else k))"
  shows "\<exists>acc d'. post_authenticate authenticate refresh new_id now req d =
           Inr (Response 200
                  (LoginBody acc (refresh_str refresh) (uid user) new_id
                     (now + timedelta_days 7)), d')
         \<and> users d' =
             map (\<lambda>r. if uid r = uid user
                       then r\<lparr>failed_login_attempts := 0, locked_until := None,
                              last_login := Some now, last_login_ip := Some (client_ip req),
                              last_login_user_agent := http_user_agent req\<rparr>
                       else r) (users d)"
proof -
  define kr where "kr =
    (case session_key req of
       None \<Rightarrow> (access_token refresh 0, Suc 0)
     | Some k \<Rightarrow> if k = [] then (access_token refresh 0, Suc 0) else (k, 0))"
  define key where "key = fst kr"
  define reads where "reads = snd kr"
  have kr: "kr = (key, reads)" by (simp add: key_def reads_def)
  have key_eq: "key =
    (case session_key req of
       None \<Rightarrow> access_token refresh 0
     | Some k \<Rightarrow> if k = [] then access_token refresh 0 else k)"
    by (simp add: key_def kr_def split: option.splits)
  define srow where "srow =
    \<lparr>us_id = new_id, us_user = uid user, us_session_key = key,
     us_jwt_token_id = access_token refresh reads, us_ip_address = client_ip req,
     us_user_agent = http_user_agent req, us_created_at = now,
     us_expires_at = now + timedelta_days 7, us_revoked_at = None, us_is_active = True\<rparr>"
  define hrow where "hrow =
    \<lparr>lh_user = Some (uid user), lh_email = data_email req, lh_success = True,
     lh_failure_reason = [], lh_ip_address = client_ip req,
     lh_user_agent = http_user_agent req, lh_attempted_at = now\<rparr>"
  define u1 where "u1 = user\<lparr>failed_login_attempts := 0, locked_until := None\<rparr>"
  define us1 where "us1 = map (\<lambda>r. if uid r = uid user
               then r\<lparr>failed_login_attempts := 0, locked_until := None\<rparr> else r) (users d)"
  define u2 where "u2 = u1\<lparr>last_login := Some now, last_login_ip := Some (client_ip req),
                         last_login_user_agent := http_user_agent req\<rparr>"
  define us4 where "us4 = map (\<lambda>r. if uid r = uid u2 then copy_last_login u2 r else r) us1"
  have row: "\<exists>r \<in> set (users d). uid r = uid user" using assms(3) by blast
  have r1: "reset_failed_login user d = Inr (u1, d\<lparr>users := us1\<rparr>)"
    unfolding u1_def us1_def by (rule reset_failed_login_Inr [OF row])
  have id1: "uid u1 = uid user" "uid u2 = uid user" by (simp_all add: u1_def u2_def)
  have fresh: "\<not> (\<exists>r \<in> set (user_sessions (d\<lparr>users := us1\<rparr>)).
            us_id r = us_id srow \<or> us_session_key r = us_session_key srow)"
    using assms(4) by (simp add: srow_def key_eq)
  have r2: "UserSession_create srow (d\<lparr>users := us1\<rparr>) =
      Inr (srow, d\<lparr>users := us1, user_sessions := user_sessions d @ [srow]\<rparr>)"
    using fresh by (simp add: UserSession_create_def)
  have r3: "LoginHistory_create hrow (d\<lparr>users := us1, user_sessions := user_sessions d @ [srow]\<rparr>)
      = d\<lparr>users := us1, user_sessions := user_sessions d @ [srow],
           login_histories := login_histories d @ [hrow]\<rparr>"
    by (simp add: LoginHistory_create_def)
  have row1: "\<exists>r \<in> set us1. uid r = uid user"
    unfolding us1_def by (rule update_rows_ex [where key = uid, OF row]) simp
  have r4: "save_update_fields copy_last_login u2
        (d\<lparr>users := us1, user_sessions := user_sessions d @ [srow],
           login_histories := login_histories d @ [hrow]\<rparr>)
      = Inr (d\<lparr>users := us4, user_sessions := user_sessions d @ [srow],
           login_histories := login_histories d @ [hrow]\<rparr>)"
    using row1 by (simp add: save_update_fields_def us4_def id1)
  have us4_eq: "us4 = map (\<lambda>r. if uid r = uid user
                       then r\<lparr>failed_login_attempts := 0, locked_until := None,
                              last_login := Some now, last_login_ip := Some (client_ip req),
                              last_login_user_agent := http_user_agent req\<rparr>
                       else r) (users d)"
    unfolding us4_def us1_def id1
    by (simp add: copy_last_login_def u2_def u1_def comp_def cong: if_cong)
  have res: "post_authenticate authenticate refresh new_id now req d =
           Inr (Response 200
                  (LoginBody (access_token refresh (Suc reads)) (refresh_str refresh) (uid u2)
                     (us_id srow) (us_expires_at srow)),
                d\<lparr>users := us4, user_sessions := user_sessions d @ [srow],
                  login_histories := login_histories d @ [hrow]\<rparr>)"
    unfolding post_authenticate_def
    using assms(1,2) r1
    by (simp add: id1 kr_def [symmetric] kr srow_def [symmetric] hrow_def [symmetric]
        u2_def [symmetric] r2 r3 r4)
  show ?thesis
    unfolding res us4_eq [symmetric]
    by (simp add: id1 srow_def)
qed

subsection \<open>The branches of the reset view\<close>

lemma mark_as_used_Inr:
  assumes "\<exists>r \<in> set (password_reset_tokens d). prt_id r = prt_id self"
  shows "mark_as_used now self d =
     Inr (self\<lparr>prt_is_used := True, prt_used_at := Some now\<rparr>,
          d\<lparr>password_reset_tokens :=
              map (\<lambda>r. if prt_id r = prt_id self
                        then r\<lparr>prt_is_used := True, prt_used_at := Some now\<rparr> else r)
                (password_reset_tokens d)\<rparr>)"
  using assms by (simp add: mark_as_used_def Let_def)

lemma User_save_Inr:
  assumes "\<exists>r \<in> set (users d). uid r = uid self"
  shows "User_save self d =
     Inr (self, d\<lparr>users := map (\<lambda>r. if uid r = uid self then self else r) (users d)\<rparr>)"
  using assms by (simp add: User_save_def)

lemma reset_password_no_row:
  assumes "objects_get
             (\<lambda>t. prt_token t = data_token req \<and> prt_is_used t = False
                    \<and> prt_is_revoked t = False)
             (password_reset_tokens d) = Inl DoesNotExist"
  shows "reset_password make_password True now req d =
     Inr (Response 400 (ErrorBody ''Invalid token''), d)"
  using assms by (simp add: reset_password_def)

lemma reset_password_expired:
  assumes "objects_get
             (\<lambda>t. prt_token t = data_token req \<and> prt_is_used t = False
                    \<and> prt_is_revoked t = False)
             (password_reset_tokens d) = Inr t"
    and "\<not> is_valid now t"
  shows "reset_password make_password True now req d =
     Inr (Response 400 (ErrorBody ''Invalid or expired token''), d)"
  using assms by (simp add: reset_password_def)

lemma reset_password_valid:
  assumes "objects_get
             (\<lambda>t. prt_token t = data_token req \<and> prt_is_used t = False
                    \<and> prt_is_revoked t = False)
             (password_reset_tokens d) = Inr t"
    and "is_valid now t"
    and "objects_get (\<lambda>u. uid u = prt_user t) (users d) = Inr u"
    and "t \<in> set (password_reset_tokens d)" and "u \<in> set (users d)"
    and "uid u = prt_user t"
  shows "reset_password make_password True now req d =
     Inr (Response 200 (MessageBody ''Password reset successful''),
          revoke_active_sessions now (uid u)
            (d\<lparr>users :=
                 map (\<lambda>r. if uid r = uid u
                           then u\<lparr>password := make_password (data_new_password req),
                                  password_changed_at := Some now,
                                  must_change_password := False\<rparr>
                           else r) (users d),
               password_reset_tokens :=
                 map (\<lambda>r. if prt_id r = prt_id t
                           then r\<lparr>prt_is_used := True, prt_used_at := Some now\<rparr> else r)
                   (password_reset_tokens d)\<rparr>))"
proof -
  let ?u' = "u\<lparr>password := make_password (data_new_password req),
               password_changed_at := Some now, must_change_password := False\<rparr>"
  let ?d1 = "d\<lparr>users := map (\<lambda>r. if uid r = uid u then ?u' else r) (users d)\<rparr>"
  have row: "\<exists>r \<in> set (users d). uid r = uid ?u'"
    using assms(5) by (intro bexI [of _ u]) simp_all
  have sv: "User_save ?u' d = Inr (?u', ?d1)"
    using User_save_Inr [OF row] by simp
  have trow: "\<exists>r \<in> set (password_reset_tokens ?d1). prt_id r = prt_id t"
    using assms(4) by (intro bexI [of _ t]) simp_all
  have mk: "mark_as_used now t ?d1 =
     Inr (t\<lparr>prt_is_used := True, prt_used_at := Some now\<rparr>,
          ?d1\<lparr>password_reset_tokens :=
              map (\<lambda>r. if prt_id r = prt_id t
                        then r\<lparr>prt_is_used := True, prt_used_at := Some now\<rparr> else r)
                (password_reset_tokens ?d1)\<rparr>)"
    by (rule mark_as_used_Inr [OF trow])
  show ?thesis
    unfolding reset_password_def
    using assms(1,2,3) sv mk by simp
qed

lemma reset_password_writes_no_row:
  assumes "objects_get
             (\<lambda>t. prt_token t = data_token req \<and> prt_is_used t = False
                    \<and> prt_is_revoked t = False)
             (password_reset_tokens d) = Inl DoesNotExist"
  shows "reset_password_writes make_password True now req d = []"
  using assms by (simp add: reset_password_writes_def)

lemma reset_password_writes_expired:
  assumes "objects_get
             (\<lambda>t. prt_token t = data_token req \<and> prt_is_used t = False
                    \<and> prt_is_revoked t = False)
             (password_reset_tokens d) = Inr t"
    and "\<not> is_valid now t"
  shows "reset_password_writes make_password True now req d = []"
  using assms by (simp add: reset_password_writes_def)

lemma reset_password_writes_valid:
  assumes "objects_get
             (\<lambda>t. prt_token t = data_token req \<and> prt_is_used t = False
                    \<and> prt_is_revoked t = False)
             (password_reset_tokens d) = Inr t"
    and "is_valid now t"
    and "objects_get (\<lambda>u. uid u = prt_user t) (users d) = Inr u"
    and "t \<in> set (password_reset_tokens d)" and "u \<in> set (users d)"
    and "uid u = prt_user t"
  shows "reset_password_writes make_password True now req d =
     [d\<lparr>users :=
          map (\<lambda>r. if uid r = uid u
                    then u\<lparr>password := make_password (data_new_password req),
                           password_changed_at := Some now,
                           must_change_password := False\<rparr>
                    else r) (users d)\<rparr>,
      d\<lparr>users :=
          map (\<lambda>r. if uid r = uid u
                    then u\<lparr>password := make_password (data_new_password req),
                           password_changed_at := Some now,
                           must_change_password := False\<rparr>
                    else r) (users d),
        password_reset_tokens :=
          map (\<lambda>r. if prt_id r = prt_id t
                    then r\<lparr>prt_is_used := True, prt_used_at := Some now\<rparr> else r)
            (password_reset_tokens d)\<rparr>,
      revoke_active_sessions now (uid u)
        (d\<lparr>users :=
             map (\<lambda>r. if uid r = uid u
                       then u\<lparr>password := make_password (data_new_password req),
                              password_changed_at := Some now,
                              must_change_password := False\<rparr>
                       else r) (users d),
           password_reset_tokens :=
             map (\<lambda>r. if prt_id r = prt_id t
                       then r\<lparr>prt_is_used := True, prt_used_at := Some now\<rparr> else r)
               (password_reset_tokens d)\<rparr>)]"
proof -
  let ?u' = "u\<lparr>password := make_password (data_new_password req),
               password_changed_at := Some now, must_change_password := False\<rparr>"
  let ?d1 = "d\<lparr>users := map (\<lambda>r. if uid r = uid u then ?u' else r) (users d)\<rparr>"
  have row: "\<exists>r \<in> set (users d). uid r = uid ?u'"
    using assms(5) by (intro bexI [of _ u]) simp_all
  have sv: "User_save ?u' d = Inr (?u', ?d1)"
    using User_save_Inr [OF row] by simp
  have trow: "\<exists>r \<in> set (password_reset_tokens ?d1). prt_id r = prt_id t"
    using assms(4) by (intro bexI [of _ t]) simp_all
  have mk: "mark_as_used now t ?d1 =
     Inr (t\<lparr>prt_is_used := True, prt_used_at := Some now\<rparr>,
          ?d1\<lparr>password_reset_tokens :=
              map (\<lambda>r. if prt_id r = prt_id t
                        then r\<lparr>prt_is_used := True, prt_used_at := Some now\<rparr> else r)
                (password_reset_tokens ?d1)\<rparr>)"
    by (rule mark_as_used_Inr [OF trow])
  show ?thesis
    unfolding reset_password_writes_def
    using assms(1,2,3) sv mk by simp
qed

lemma token_lookup:
  assumes "distinct (map prt_token rows)" and "t \<in> set rows" and "prt_token t = tok"
  shows "objects_get
           (\<lambda>x. prt_token x = tok \<and> prt_is_used x = False \<and> prt_is_revoked x = False) rows
         = (if prt_is_used t \<or> prt_is_revoked t then Inl DoesNotExist else Inr t)"
proof -
  have "filter (\<lambda>x. prt_token x = prt_token t
            \<and> (prt_is_used x = False \<and> prt_is_revoked x = False)) rows
        = (if prt_is_used t = False \<and> prt_is_revoked t = False then [t] else [])"
    by (rule filter_key_unique [OF assms(1,2)])
  then show ?thesis
    using assms(3) by (auto simp add: objects_get_def)
qed

lemma request_reset_Inr:
  assumes "objects_get (\<lambda>u. email u = data_email req) (users d) = Inr user"
    and "new_id \<notin> prt_id ` set (password_reset_tokens d)"
    and "tok \<notin> prt_token ` set (password_reset_tokens d)"
  shows "request_reset tok new_id now req d =
     Inr (Response 200
            (MessageBody ''If the email exists, a password reset link has been sent.''),
          d\<lparr>password_reset_tokens := password_reset_tokens d @
              [\<lparr>prt_id = new_id, prt_user = uid user, prt_token = tok,
                prt_created_at = now, prt_expires_at = now + timedelta_hours 1,
                prt_used_at = None, prt_ip_address = client_ip req,
                prt_user_agent = http_user_agent req,
                prt_is_used = False, prt_is_revoked = False\<rparr>]\<rparr>)"
proof -
  have "\<not> (\<exists>r \<in> set (password_reset_tokens d). prt_id r = new_id \<or> prt_token r = tok)"
    using assms(2,3) by (metis imageI)
  then show ?thesis
    using assms(1) by (simp add: request_reset_def PasswordResetToken_create_def)
qed

lemma timedelta_hours_1_pos: "0 < timedelta_hours 1"
  by (simp add: timedelta_hours_def)

subsection \<open>The two-role cycle\<close>

lemma role_A_parent: "parent_role role_A = Some 3"
  by (simp add: role_A_def)

lemma role_B_parent: "parent_role role_B = Some 2"
  by (simp add: role_B_def)

lemma cyclic_roles_A: "cyclic_roles 2 = Some role_A"
  by (simp add: cyclic_roles_def)

lemma cyclic_roles_B: "cyclic_roles 3 = Some role_B"
  by (simp add: cyclic_roles_def)

lemma cyclic_never_returns:
  assumes "get_all_permissions roles self = Some y"
  shows "\<not> (roles = cyclic_roles \<and> (self = role_A \<or> self = role_B))"
proof (rule get_all_permissions.raw_induct
    [where P = "\<lambda>r s y. \<not> (r = cyclic_roles \<and> (s = role_A \<or> s = role_B))", OF _ assms])
  fix f :: "(nat \<rightharpoonup> role) \<Rightarrow> role \<Rightarrow> (error + nat set) option"
  fix r :: "nat \<rightharpoonup> role" and s :: role and z :: "error + nat set"
  assume IH: "\<And>r' s' y'. f r' s' = Some y' \<Longrightarrow>
      \<not> (r' = cyclic_roles \<and> (s' = role_A \<or> s' = role_B))"
  assume body: "(case parent_role s of
        None \<Rightarrow> Some (Inr (permissions s))
      | Some pid \<Rightarrow>
          (case r pid of
             None \<Rightarrow> Some (Inl DoesNotExist)
           | Some parent \<Rightarrow>
               Option.bind (f r parent)
                 (\<lambda>res. Some (case res of
                                Inl e \<Rightarrow> Inl e
                              | Inr inherited \<Rightarrow> Inr (permissions s \<union> inherited))))) = Some z"
  show "\<not> (r = cyclic_roles \<and> (s = role_A \<or> s = role_B))"
  proof
    assume c: "r = cyclic_roles \<and> (s = role_A \<or> s = role_B)"
    then consider "s = role_A" | "s = role_B" by blast
    then show False
    proof cases
      case 1
      have "f cyclic_roles role_B \<noteq> None"
        using body c 1 by (auto simp add: role_A_parent cyclic_roles_B bind_eq_Some_conv)
      then obtain res where "f cyclic_roles role_B = Some res" by blast
      from IH [OF this] show False by simp
    next
      case 2
      have "f cyclic_roles role_A \<noteq> None"
        using body c 2 by (auto simp add: role_B_parent cyclic_roles_A bind_eq_Some_conv)
      then obtain res where "f cyclic_roles role_A = Some res" by blast
      from IH [OF this] show False by simp
    qed
  qed
qed

section \<open>Lockout\<close>

text \<open>
  Claim C4. A user with no failed attempt and no lock fails to log in at the times
  \<open>ts\<close>, at most five of them. Every failure adds one to \<open>failed_login_attempts\<close>, so
  the counter ends at the number of failures; \<open>locked_until\<close> stays unset after fewer
  than five failures and is the time of the fifth failure plus 30 minutes after five.
  The user's row holds the same counter and lock.
\<close>

theorem five_failures_lock:
  assumes "failed_login_attempts self = 0" and "locked_until self = None"
    and "\<exists>r \<in> set (users d). uid r = uid self" and "length ts \<le> 5"
  shows "\<exists>self' d'. record_failed_logins ts self d = Inr (self', d')
           \<and> failed_login_attempts self' = int (length ts)
           \<and> locked_until self' =
                (if length ts = 5 then Some (last ts + timedelta_minutes 30) else None)
           \<and> (ts \<noteq> [] \<longrightarrow> lockout_stored self' d')"
proof -
  have b: "failed_login_attempts self + int (length ts) \<le> 5"
    using assms(1,4) by simp
  from record_failed_logins_count [OF assms(3) assms(2) b]
  obtain s2 d2 where r: "record_failed_logins ts self d = Inr (s2, d2)"
    and f: "failed_login_attempts s2 = failed_login_attempts self + int (length ts)"
    and l: "locked_until s2 =
              (if ts \<noteq> [] \<and> failed_login_attempts self + int (length ts) = 5
               then Some (last ts + timedelta_minutes 30) else None)"
    and st: "ts \<noteq> [] \<longrightarrow> lockout_stored s2 d2"
    by blast
  have l': "locked_until s2 =
      (if length ts = 5 then Some (last ts + timedelta_minutes 30) else None)"
    using l assms(1) by auto
  show ?thesis
    using r f l' st assms(1) by (intro exI [of _ s2] exI [of _ d2]) simp
qed

theorem five_failures_lock_witness:
  "failed_login_attempts alice = 0 \<and> locked_until alice = None
   \<and> (\<exists>r \<in> set (users db0). uid r = uid alice)
   \<and> (\<exists>self' d'. record_failed_logins [10, 20, 30, 40, 50] alice db0 = Inr (self', d')
         \<and> failed_login_attempts self' = 5
         \<and> locked_until self' = Some 1800000050
         \<and> lockout_stored self' d')"
proof -
  have h1: "failed_login_attempts alice = 0" by (simp add: alice_def)
  have h2: "locked_until alice = None" by (simp add: alice_def)
  have h3: "\<exists>r \<in> set (users db0). uid r = uid alice" by (simp add: db0_def)
  have h4: "length [10, 20, 30, 40, 50 :: int] \<le> 5" by simp
  from five_failures_lock [OF h1 h2 h3 h4]
  obtain s2 d2 where r: "record_failed_logins [10, 20, 30, 40, 50] alice db0 = Inr (s2, d2)"
    and f: "failed_login_attempts s2 = int (length [10, 20, 30, 40, 50 :: int])"
    and l: "locked_until s2 =
      (if length [10, 20, 30, 40, 50 :: int] = 5
       then Some (last [10, 20, 30, 40, 50] + timedelta_minutes 30) else None)"
    and st: "[10, 20, 30, 40, 50 :: int] \<noteq> [] \<longrightarrow> lockout_stored s2 d2"
    by blast
  have f': "failed_login_attempts s2 = 5" using f by simp
  have l': "locked_until s2 = Some 1800000050"
    using l by (simp add: timedelta_minutes_def)
  have st': "lockout_stored s2 d2" using st by simp
  show ?thesis
    using h1 h2 h3 r f' l' st' by blast
qed

text \<open>
  Claim C5. \<^verbatim>\<open>reset_failed_login\<close>, which a successful login and the unlock action
  call, sets \<open>failed_login_attempts\<close> to zero and clears \<open>locked_until\<close>, whatever they
  were, in the object and in the user's row, so \<^verbatim>\<open>is_account_locked\<close> is false
  afterwards at any time.
\<close>

theorem reset_failed_login_unlocks:
  assumes "\<exists>r \<in> set (users d). uid r = uid self"
  shows "\<exists>self' d'. reset_failed_login self d = Inr (self', d')
           \<and> failed_login_attempts self' = 0 \<and> locked_until self' = None
           \<and> \<not> is_account_locked now self'
           \<and> (\<exists>r \<in> set (users d'). uid r = uid self)
           \<and> (\<forall>r \<in> set (users d'). uid r = uid self \<longrightarrow>
                 failed_login_attempts r = 0 \<and> locked_until r = None
                 \<and> \<not> is_account_locked now r)"
proof -
  let ?f = "\<lambda>r::user. r\<lparr>failed_login_attempts := 0, locked_until := None\<rparr>"
  let ?us = "map (\<lambda>r. if uid r = uid self then ?f r else r) (users d)"
  from assms obtain r where r: "r \<in> set (users d)" "uid r = uid self" by blast
  have "?f r \<in> set ?us"
    using r by (rule update_rows_mem)
  moreover have "uid (?f r) = uid self" using r(2) by simp
  ultimately have ex: "\<exists>r \<in> set ?us. uid r = uid self" by blast
  have all: "\<forall>r \<in> set ?us. uid r = uid self \<longrightarrow>
                 failed_login_attempts r = 0 \<and> locked_until r = None
                 \<and> \<not> is_account_locked now r"
    by (auto simp add: is_account_locked_def)
  have eq: "reset_failed_login self d = Inr (?f self, d\<lparr>users := ?us\<rparr>)"
    by (rule reset_failed_login_Inr [OF assms])
  have self_ok: "failed_login_attempts (?f self) = 0 \<and> locked_until (?f self) = None
      \<and> \<not> is_account_locked now (?f self)"
    by (simp add: is_account_locked_def)
  have us: "users (d\<lparr>users := ?us\<rparr>) = ?us" by simp
  show ?thesis
  proof (intro exI conjI)
    show "reset_failed_login self d = Inr (?f self, d\<lparr>users := ?us\<rparr>)" by (rule eq)
    show "failed_login_attempts (?f self) = 0" by simp
    show "locked_until (?f self) = None" by simp
    show "\<not> is_account_locked now (?f self)" using self_ok by blast
    show "\<exists>r \<in> set (users (d\<lparr>users := ?us\<rparr>)). uid r = uid self"
      unfolding us by (rule ex)
    show "\<forall>r \<in> set (users (d\<lparr>users := ?us\<rparr>)). uid r = uid self \<longrightarrow>
                 failed_login_attempts r = 0 \<and> locked_until r = None
                 \<and> \<not> is_account_locked now r"
      unfolding us by (rule all)
  qed
qed

theorem reset_failed_login_unlocks_witness:
  "(\<exists>r \<in> set (users db_locked). uid r = uid alice_locked)
   \<and> is_account_locked 100 alice_locked
   \<and> (\<exists>self' d'. reset_failed_login alice_locked db_locked = Inr (self', d')
           \<and> failed_login_attempts self' = 0 \<and> locked_until self' = None
           \<and> \<not> is_account_locked 100 self')"
proof -
  have h: "\<exists>r \<in> set (users db_locked). uid r = uid alice_locked"
    by (simp add: db_locked_def)
  have l: "is_account_locked 100 alice_locked"
    by (simp add: is_account_locked_def alice_locked_def)
  from reset_failed_login_unlocks [OF h, of 100] h l show ?thesis by blast
qed

text \<open>
  Claim C10. A user with five or more failed attempts whose lock no longer holds
  (\<^verbatim>\<open>is_account_locked\<close> is false) is locked again by one more failed login, until 30
  minutes after it: the end of a lock leaves the counter as it was.
\<close>

theorem expired_lock_relocks:
  assumes "failed_login_attempts self \<ge> 5" and "\<not> is_account_locked now self"
    and "\<exists>r \<in> set (users d). uid r = uid self"
  shows "\<exists>self' d'. increment_failed_login now self d = Inr (self', d')
           \<and> failed_login_attempts self' = failed_login_attempts self + 1
           \<and> locked_until self' = Some (now + timedelta_minutes 30)
           \<and> is_account_locked now self'
           \<and> lockout_stored self' d'"
proof -
  from increment_failed_login_step [OF assms(3), of now]
  obtain s1 d1 where step: "increment_failed_login now self d = Inr (s1, d1)"
    and f1: "failed_login_attempts s1 = failed_login_attempts self + 1"
    and l1: "locked_until s1 =
                (if failed_login_attempts self + 1 \<ge> 5
                 then Some (now + timedelta_minutes 30) else locked_until self)"
    and st1: "lockout_stored s1 d1"
    by blast
  have l1': "locked_until s1 = Some (now + timedelta_minutes 30)"
    using l1 assms(1) by simp
  have lk: "is_account_locked now s1"
    using l1' timedelta_minutes_30_pos by (simp add: is_account_locked_def)
  show ?thesis
    using step f1 l1' lk st1 by blast
qed

theorem expired_lock_relocks_witness:
  "failed_login_attempts alice_expired \<ge> 5 \<and> \<not> is_account_locked 1000 alice_expired
   \<and> (\<exists>r \<in> set (users db_expired). uid r = uid alice_expired)
   \<and> (\<exists>self' d'. increment_failed_login 1000 alice_expired db_expired = Inr (self', d')
         \<and> failed_login_attempts self' = 6
         \<and> locked_until self' = Some 1800001000
         \<and> is_account_locked 1000 self')"
proof -
  have h1: "failed_login_attempts alice_expired \<ge> 5" by (simp add: alice_expired_def)
  have h2: "\<not> is_account_locked 1000 alice_expired"
    by (simp add: alice_expired_def is_account_locked_def)
  have h3: "\<exists>r \<in> set (users db_expired). uid r = uid alice_expired"
    by (simp add: db_expired_def)
  from expired_lock_relocks [OF h1 h2 h3]
  obtain s1 d1 where step: "increment_failed_login 1000 alice_expired db_expired = Inr (s1, d1)"
    and f1: "failed_login_attempts s1 = failed_login_attempts alice_expired + 1"
    and l1: "locked_until s1 = Some (1000 + timedelta_minutes 30)"
    and lk: "is_account_locked 1000 s1"
    by blast
  have f1': "failed_login_attempts s1 = 6" using f1 by (simp add: alice_expired_def)
  have l1': "locked_until s1 = Some 1800001000" using l1 by (simp add: timedelta_minutes_def)
  show ?thesis using h1 h2 h3 step f1' l1' lk by blast
qed

section \<open>Session history\<close>

text \<open>
  Claim C6. After \<^verbatim>\<open>add_session\<close> the session history has at most 10 entries and
  ends with the new summary; before it come the last 9 entries of the old history in
  their order. A history of 10 entries loses its oldest entry and no other; a shorter
  one loses none. The user's row holds the new history.
\<close>

theorem add_session_bounded:
  assumes "\<exists>r \<in> set (users d). uid r = uid self"
  shows "\<exists>self' d'. add_session now sid ip ua self d = Inr (self', d')
     \<and> length (active_sessions self') \<le> 10
     \<and> active_sessions self' =
          drop (length (active_sessions self) - 9) (active_sessions self)
          @ [\<lparr>ss_id = sid, ss_ip_address = ip, ss_user_agent = ua, ss_created_at = now\<rparr>]
     \<and> last (active_sessions self') =
          \<lparr>ss_id = sid, ss_ip_address = ip, ss_user_agent = ua, ss_created_at = now\<rparr>
     \<and> (length (active_sessions self) = 10 \<longrightarrow>
          active_sessions self' = tl (active_sessions self)
            @ [\<lparr>ss_id = sid, ss_ip_address = ip, ss_user_agent = ua, ss_created_at = now\<rparr>])
     \<and> (length (active_sessions self) < 10 \<longrightarrow>
          active_sessions self' = active_sessions self
            @ [\<lparr>ss_id = sid, ss_ip_address = ip, ss_user_agent = ua, ss_created_at = now\<rparr>])
     \<and> (\<exists>r \<in> set (users d'). uid r = uid self)
     \<and> (\<forall>r \<in> set (users d'). uid r = uid self \<longrightarrow>
           active_sessions r = active_sessions self')"
proof -
  let ?s = "\<lparr>ss_id = sid, ss_ip_address = ip, ss_user_agent = ua, ss_created_at = now\<rparr>"
  let ?old = "active_sessions self"
  let ?new = "slice_last 10 (?old @ [?s])"
  let ?f = "\<lambda>r::user. r\<lparr>active_sessions := ?new\<rparr>"
  let ?us = "map (\<lambda>r. if uid r = uid self then ?f r else r) (users d)"
  have eq: "add_session now sid ip ua self d = Inr (?f self, d\<lparr>users := ?us\<rparr>)"
    by (rule add_session_Inr [OF assms])
  have new: "?new = drop (length ?old - 9) ?old @ [?s]"
    by (rule slice_last_snoc)
  have ex: "\<exists>r \<in> set ?us. uid r = uid self"
    by (rule update_rows_ex [where key = uid, OF assms]) simp
  have all: "\<forall>r \<in> set ?us. uid r = uid self \<longrightarrow> active_sessions r = ?new"
    by (rule update_rows_all [where key = uid and Q = "\<lambda>r. active_sessions r = ?new"]) simp_all
  have us: "users (d\<lparr>users := ?us\<rparr>) = ?us" by simp
  have fs: "active_sessions (?f self) = ?new" by simp
  show ?thesis
  proof (intro exI conjI)
    show "add_session now sid ip ua self d = Inr (?f self, d\<lparr>users := ?us\<rparr>)" by (rule eq)
    show "length (active_sessions (?f self)) \<le> 10"
      unfolding fs new by simp
    show "active_sessions (?f self) = drop (length ?old - 9) ?old @ [?s]"
      unfolding fs by (rule new)
    show "last (active_sessions (?f self)) = ?s"
      unfolding fs new by simp
    show "length ?old = 10 \<longrightarrow> active_sessions (?f self) = tl ?old @ [?s]"
      unfolding fs new by (simp add: drop_Suc)
    show "length ?old < 10 \<longrightarrow> active_sessions (?f self) = ?old @ [?s]"
      unfolding fs new by simp
    show "\<exists>r \<in> set (users (d\<lparr>users := ?us\<rparr>)). uid r = uid self"
      unfolding us by (rule ex)
    show "\<forall>r \<in> set (users (d\<lparr>users := ?us\<rparr>)). uid r = uid self \<longrightarrow>
           active_sessions r = active_sessions (?f self)"
      unfolding us fs by (rule all)
  qed
qed

theorem add_session_bounded_witness:
  "(\<exists>r \<in> set (users db_full). uid r = uid alice_full)
   \<and> length (active_sessions alice_full) = 10
   \<and> (\<exists>self' d'. add_session 99 ''k'' ''10.0.0.2'' ''ua'' alice_full db_full = Inr (self', d')
         \<and> length (active_sessions self') = 10
         \<and> active_sessions self' =
              map session_n [2, 3, 4, 5, 6, 7, 8, 9, 10]
              @ [\<lparr>ss_id = ''k'', ss_ip_address = ''10.0.0.2'', ss_user_agent = ''ua'',
                   ss_created_at = 99\<rparr>])"
proof -
  let ?s = "\<lparr>ss_id = ''k'', ss_ip_address = ''10.0.0.2'', ss_user_agent = ''ua'',
             ss_created_at = 99\<rparr>"
  have h: "\<exists>r \<in> set (users db_full). uid r = uid alice_full"
    by (simp add: db_full_def)
  have old: "active_sessions alice_full = map session_n [1, 2, 3, 4, 5, 6, 7, 8, 9, 10]"
    by (simp add: alice_full_def)
  have len: "length (active_sessions alice_full) = 10"
    unfolding old by simp
  from add_session_bounded [OF h, of 99 "''k''" "''10.0.0.2''" "''ua''"]
  obtain s1 d1 where r: "add_session 99 ''k'' ''10.0.0.2'' ''ua'' alice_full db_full = Inr (s1, d1)"
    and b: "length (active_sessions s1) \<le> 10"
    and t: "length (active_sessions alice_full) = 10 \<longrightarrow>
          active_sessions s1 = tl (active_sessions alice_full) @ [?s]"
    by blast
  have new: "active_sessions s1 = map session_n [2, 3, 4, 5, 6, 7, 8, 9, 10] @ [?s]"
    using t len unfolding old by simp
  have len': "length (active_sessions s1) = 10"
    unfolding new by simp
  show ?thesis
    using h len r len' new by blast
qed

section \<open>Login\<close>

text \<open>
  Claim C3. When the user with the request's email is locked at the time of the
  attempt, \<^verbatim>\<open>post\<close> answers 423 with the account-locked message and adds one
  \<^verbatim>\<open>account_locked\<close> failure for that user to the login history, changing nothing
  else. The outcome is the same for every password and every authentication backend:
  the credentials are not looked at.
\<close>

theorem locked_login_rejected:
  assumes "distinct (map email (users d))" and "user \<in> set (users d)"
    and "email user = data_email req" and "is_account_locked now user"
  shows "post authenticate refresh new_id now req d =
           Inr (Response 423 (ErrorBody ''Account is locked. Please try again later.''),
                d\<lparr>login_histories := login_histories d @
                   [\<lparr>lh_user = Some (uid user), lh_email = data_email req,
                     lh_success = False, lh_failure_reason = ''account_locked'',
                     lh_ip_address = client_ip req, lh_user_agent = http_user_agent req,
                     lh_attempted_at = now\<rparr>]\<rparr>)
         \<and> post authenticate' refresh' new_id' now (req\<lparr>data_password := pw\<rparr>) d =
             post authenticate refresh new_id now req d"
proof -
  have g: "objects_get (\<lambda>u. email u = data_email req) (users d) = Inr user"
    by (rule objects_get_unique [OF assms(1,2,3)])
  have g': "objects_get (\<lambda>u. email u = data_email (req\<lparr>data_password := pw\<rparr>)) (users d)
      = Inr user"
    using g by simp
  have a: "post authenticate refresh new_id now req d =
           Inr (Response 423 (ErrorBody ''Account is locked. Please try again later.''),
                d\<lparr>login_histories := login_histories d @
                   [\<lparr>lh_user = Some (uid user), lh_email = data_email req,
                     lh_success = False, lh_failure_reason = ''account_locked'',
                     lh_ip_address = client_ip req, lh_user_agent = http_user_agent req,
                     lh_attempted_at = now\<rparr>]\<rparr>)"
    unfolding post_locked [OF g assms(4)] by (simp add: LoginHistory_create_def)
  have b: "post authenticate' refresh' new_id' now (req\<lparr>data_password := pw\<rparr>) d =
           Inr (Response 423 (ErrorBody ''Account is locked. Please try again later.''),
                d\<lparr>login_histories := login_histories d @
                   [\<lparr>lh_user = Some (uid user), lh_email = data_email req,
                     lh_success = False, lh_failure_reason = ''account_locked'',
                     lh_ip_address = client_ip req, lh_user_agent = http_user_agent req,
                     lh_attempted_at = now\<rparr>]\<rparr>)"
    unfolding post_locked [OF g' assms(4)] by (simp add: LoginHistory_create_def)
  show ?thesis using a b by simp
qed

theorem locked_login_rejected_witness:
  "distinct (map email (users db_locked)) \<and> alice_locked \<in> set (users db_locked)
   \<and> email alice_locked = data_email req_alice \<and> is_account_locked 100 alice_locked
   \<and> example_authenticate db_locked (data_email req_alice) (data_password req_alice)
       = Some alice_locked
   \<and> post example_authenticate example_refresh 1 100 req_alice db_locked =
       Inr (Response 423 (ErrorBody ''Account is locked. Please try again later.''),
            db_locked\<lparr>login_histories :=
               [\<lparr>lh_user = Some 1, lh_email = ''a@x.io'',
                 lh_success = False, lh_failure_reason = ''account_locked'',
                 lh_ip_address = ''10.0.0.2'', lh_user_agent = ''ua'',
                 lh_attempted_at = 100\<rparr>]\<rparr>)"
proof -
  have h1: "distinct (map email (users db_locked))" by (simp add: db_locked_def)
  have h2: "alice_locked \<in> set (users db_locked)" by (simp add: db_locked_def)
  have h3: "email alice_locked = data_email req_alice"
    by (simp add: alice_locked_def alice_def req_alice_def)
  have h4: "is_account_locked 100 alice_locked"
    by (simp add: is_account_locked_def alice_locked_def)
  have a: "example_authenticate db_locked (data_email req_alice) (data_password req_alice)
       = Some alice_locked"
    by (simp add: example_authenticate_def example_hasher_def db_locked_def
        alice_locked_def alice_def req_alice_def)
  have p: "post example_authenticate example_refresh 1 100 req_alice db_locked =
       Inr (Response 423 (ErrorBody ''Account is locked. Please try again later.''),
            db_locked\<lparr>login_histories := login_histories db_locked @
               [\<lparr>lh_user = Some (uid alice_locked), lh_email = data_email req_alice,
                 lh_success = False, lh_failure_reason = ''account_locked'',
                 lh_ip_address = client_ip req_alice,
                 lh_user_agent = http_user_agent req_alice,
                 lh_attempted_at = 100\<rparr>]\<rparr>)"
    using locked_login_rejected [OF h1 h2 h3 h4] by blast
  have e: "login_histories db_locked @
               [\<lparr>lh_user = Some (uid alice_locked), lh_email = data_email req_alice,
                 lh_success = False, lh_failure_reason = ''account_locked'',
                 lh_ip_address = client_ip req_alice,
                 lh_user_agent = http_user_agent req_alice,
                 lh_attempted_at = 100\<rparr>]
       = [\<lparr>lh_user = Some 1, lh_email = ''a@x.io'',
                 lh_success = False, lh_failure_reason = ''account_locked'',
                 lh_ip_address = ''10.0.0.2'', lh_user_agent = ''ua'',
                 lh_attempted_at = 100\<rparr>]"
    by (simp add: db_locked_def db0_def alice_locked_def alice_def req_alice_def)
  show ?thesis using h1 h2 h3 h4 a p unfolding e by blast
qed

text \<open>
  Claim C9. A login with an email that no user has and a login with the email of an
  unlocked user that the backends reject both get the answer 401 with the message
  \<^verbatim>\<open>Invalid credentials\<close>; the first leaves the database as it was.
\<close>

theorem login_failures_indistinguishable:
  assumes "distinct (map email (users d))"
    and "data_email req1 \<notin> email ` set (users d)"
    and "authenticate d (data_email req1) (data_password req1) = None"
    and "user \<in> set (users d)" and "email user = data_email req2"
    and "\<not> is_account_locked now2 user"
    and "authenticate d (data_email req2) (data_password req2) = None"
  shows "\<exists>d2. post authenticate refresh1 id1 now1 req1 d =
             Inr (Response 401 (ErrorBody ''Invalid credentials''), d)
           \<and> post authenticate refresh2 id2 now2 req2 d =
             Inr (Response 401 (ErrorBody ''Invalid credentials''), d2)"
proof -
  have g1: "objects_get (\<lambda>u. email u = data_email req1) (users d) = Inl DoesNotExist"
    by (rule objects_get_absent [OF assms(2)])
  have p1: "post authenticate refresh1 id1 now1 req1 d =
      Inr (Response 401 (ErrorBody ''Invalid credentials''), d)"
    unfolding post_unknown [OF g1] by (rule post_authenticate_unknown [where authenticate = authenticate, OF assms(3,2)])
  have g2: "objects_get (\<lambda>u. email u = data_email req2) (users d) = Inr user"
    by (rule objects_get_unique [OF assms(1,4,5)])
  have row: "\<exists>r \<in> set (users d). uid r = uid user"
    using assms(4) by blast
  from increment_failed_login_step [OF row, of now2]
  obtain u' d1 where inc: "increment_failed_login now2 user d = Inr (u', d1)"
    by blast
  have p2: "post authenticate refresh2 id2 now2 req2 d =
      Inr (Response 401 (ErrorBody ''Invalid credentials''),
          LoginHistory_create
            \<lparr>lh_user = Some (uid u'), lh_email = data_email req2,
             lh_success = False, lh_failure_reason = ''invalid_credentials'',
             lh_ip_address = client_ip req2, lh_user_agent = http_user_agent req2,
             lh_attempted_at = now2\<rparr> d1)"
    unfolding post_not_locked [OF g2 assms(6)]
    by (rule post_authenticate_rejected [where authenticate = authenticate, OF assms(7) g2 inc])
  show ?thesis using p1 p2 by blast
qed

theorem login_failures_indistinguishable_witness:
  "distinct (map email (users db0))
   \<and> data_email req_nobody \<notin> email ` set (users db0)
   \<and> alice \<in> set (users db0) \<and> email alice = data_email req_alice_wrong
   \<and> \<not> is_account_locked 100 alice \<and> is_active alice
   \<and> (\<exists>d2. post example_authenticate example_refresh 1 100 req_nobody db0 =
             Inr (Response 401 (ErrorBody ''Invalid credentials''), db0)
           \<and> post example_authenticate example_refresh 1 100 req_alice_wrong db0 =
             Inr (Response 401 (ErrorBody ''Invalid credentials''), d2))"
proof -
  have h1: "distinct (map email (users db0))" by (simp add: db0_def)
  have h2: "data_email req_nobody \<notin> email ` set (users db0)"
    by (simp add: db0_def alice_def req_nobody_def req_alice_def)
  have h3: "example_authenticate db0 (data_email req_nobody) (data_password req_nobody) = None"
    by (simp add: example_authenticate_def db0_def alice_def req_nobody_def req_alice_def)
  have h4: "alice \<in> set (users db0)" by (simp add: db0_def)
  have h5: "email alice = data_email req_alice_wrong"
    by (simp add: alice_def req_alice_wrong_def req_alice_def)
  have h6: "\<not> is_account_locked 100 alice"
    by (simp add: is_account_locked_def alice_def)
  have h7: "example_authenticate db0 (data_email req_alice_wrong)
      (data_password req_alice_wrong) = None"
    by (simp add: example_authenticate_def example_hasher_def db0_def alice_def
        req_alice_wrong_def req_alice_def)
  have act: "is_active alice" by (simp add: alice_def)
  from login_failures_indistinguishable
    [where authenticate = example_authenticate, OF h1 h2 h3 h4 h5 h6 h7]
  show ?thesis using h1 h2 h4 h5 h6 act by blast
qed

text \<open>
  The login view reaches the two lockout methods: a login that the backends accept
  for an active, unlocked user leaves the user's row with no failed attempt and no
  lock, and a login that they reject for an unlocked user counts one failure through
  \<^verbatim>\<open>increment_failed_login\<close>.
\<close>

lemma post_success_clears_lockout:
  assumes "distinct (map email (users d))" and "user \<in> set (users d)"
    and "email user = data_email req" and "\<not> is_account_locked now user"
    and "authenticate d (data_email req) (data_password req) = Some user"
    and "is_active user"
    and "\<not> (\<exists>r \<in> set (user_sessions d). us_id r = new_id
            \<or> us_session_key r =
                (case session_key req of
                   None \<Rightarrow> access_token refresh 0
                 | Some k \<Rightarrow> if k = [] then access_token refresh 0 else k))"
  shows "\<exists>acc d'. post authenticate refresh new_id now req d =
           Inr (Response 200
                  (LoginBody acc (refresh_str refresh) (uid user) new_id
                     (now + timedelta_days 7)), d')
         \<and> (\<exists>r \<in> set (users d'). uid r = uid user)
         \<and> (\<forall>r \<in> set (users d'). uid r = uid user \<longrightarrow>
               failed_login_attempts r = 0 \<and> locked_until r = None)"
proof -
  let ?f = "\<lambda>r::user. r\<lparr>failed_login_attempts := 0, locked_until := None,
                              last_login := Some now, last_login_ip := Some (client_ip req),
                              last_login_user_agent := http_user_agent req\<rparr>"
  let ?us = "map (\<lambda>r. if uid r = uid user then ?f r else r) (users d)"
  have g: "objects_get (\<lambda>u. email u = data_email req) (users d) = Inr user"
    by (rule objects_get_unique [OF assms(1,2,3)])
  have row: "\<exists>r \<in> set (users d). uid r = uid user" using assms(2) by blast
  from post_authenticate_success
    [where authenticate = authenticate, OF assms(5,6,2,7), of now]
  obtain acc d' where r: "post_authenticate authenticate refresh new_id now req d =
           Inr (Response 200
                  (LoginBody acc (refresh_str refresh) (uid user) new_id
                     (now + timedelta_days 7)), d')"
    and us: "users d' = ?us"
    by blast
  have ex: "\<exists>r \<in> set ?us. uid r = uid user"
    by (rule update_rows_ex [where key = uid, OF row]) simp
  have all: "\<forall>r \<in> set ?us. uid r = uid user \<longrightarrow>
               failed_login_attempts r = 0 \<and> locked_until r = None"
    by (rule update_rows_all [where key = uid
          and Q = "\<lambda>r. failed_login_attempts r = 0 \<and> locked_until r = None"]) simp_all
  show ?thesis
  proof (intro exI conjI)
    show "post authenticate refresh new_id now req d =
           Inr (Response 200
                  (LoginBody acc (refresh_str refresh) (uid user) new_id
                     (now + timedelta_days 7)), d')"
      unfolding post_not_locked [OF g assms(4)] by (rule r)
    show "\<exists>r \<in> set (users d'). uid r = uid user" unfolding us by (rule ex)
    show "\<forall>r \<in> set (users d'). uid r = uid user \<longrightarrow>
               failed_login_attempts r = 0 \<and> locked_until r = None"
      unfolding us by (rule all)
  qed
qed

lemma post_rejected_counts_failure:
  assumes "distinct (map email (users d))" and "user \<in> set (users d)"
    and "email user = data_email req" and "\<not> is_account_locked now user"
    and "authenticate d (data_email req) (data_password req) = None"
  shows "\<exists>user' d1. increment_failed_login now user d = Inr (user', d1)
           \<and> post authenticate refresh new_id now req d =
               Inr (Response 401 (ErrorBody ''Invalid credentials''),
                    LoginHistory_create
                      \<lparr>lh_user = Some (uid user), lh_email = data_email req,
                       lh_success = False, lh_failure_reason = ''invalid_credentials'',
                       lh_ip_address = client_ip req, lh_user_agent = http_user_agent req,
                       lh_attempted_at = now\<rparr> d1)"
proof -
  have g: "objects_get (\<lambda>u. email u = data_email req) (users d) = Inr user"
    by (rule objects_get_unique [OF assms(1,2,3)])
  have row: "\<exists>r \<in> set (users d). uid r = uid user" using assms(2) by blast
  from increment_failed_login_step [OF row, of now]
  obtain u' d1 where inc: "increment_failed_login now user d = Inr (u', d1)"
    and id: "uid u' = uid user"
    by blast
  have "post authenticate refresh new_id now req d =
      Inr (Response 401 (ErrorBody ''Invalid credentials''),
          LoginHistory_create
            \<lparr>lh_user = Some (uid u'), lh_email = data_email req,
             lh_success = False, lh_failure_reason = ''invalid_credentials'',
             lh_ip_address = client_ip req, lh_user_agent = http_user_agent req,
             lh_attempted_at = now\<rparr> d1)"
    unfolding post_not_locked [OF g assms(4)]
    by (rule post_authenticate_rejected [where authenticate = authenticate, OF assms(5) g inc])
  then show ?thesis using inc id by simp
qed

section \<open>Password reset\<close>

text \<open>
  Claim C8, as the code has it. For valid request data and a token row with the
  request's token string, \<^verbatim>\<open>reset_password\<close> answers 400 with an invalid-token message,
  writes nothing and leaves the database as it was when the token does not satisfy
  \<^verbatim>\<open>is_valid()\<close> (it is used, revoked or expired). When it does, the answer is 200 and
  the call commits three writes in turn: the first stores the hash of the new password
  in the user's row and leaves every token as it was, the second marks the token's row
  used with \<open>used_at\<close> the time of the call, the third revokes the sessions. The
  password and the token are changed by two writes, not in one step.
\<close>

theorem reset_password_writes_in_two_steps:
  assumes "distinct (map prt_token (password_reset_tokens d))"
    and "t \<in> set (password_reset_tokens d)" and "prt_token t = data_token req"
    and "distinct (map uid (users d))" and "u \<in> set (users d)" and "uid u = prt_user t"
  shows "(\<not> is_valid now t \<longrightarrow>
            reset_password make_password True now req d =
              Inr (Response 400
                     (ErrorBody (if prt_is_used t \<or> prt_is_revoked t
                                 then ''Invalid token'' else ''Invalid or expired token'')),
                   d)
            \<and> reset_password_writes make_password True now req d = [])
       \<and> (is_valid now t \<longrightarrow>
            (\<exists>d1 d2 d'. reset_password make_password True now req d =
                     Inr (Response 200 (MessageBody ''Password reset successful''), d')
                 \<and> reset_password_writes make_password True now req d = [d1, d2, d']
                 \<and> users d1 =
                     map (\<lambda>r. if uid r = uid u
                               then u\<lparr>password := make_password (data_new_password req),
                                      password_changed_at := Some now,
                                      must_change_password := False\<rparr>
                               else r) (users d)
                 \<and> password_reset_tokens d1 = password_reset_tokens d
                 \<and> users d2 = users d1
                 \<and> password_reset_tokens d2 =
                     map (\<lambda>r. if prt_id r = prt_id t
                               then r\<lparr>prt_is_used := True, prt_used_at := Some now\<rparr>
                               else r) (password_reset_tokens d)
                 \<and> users d' = users d2
                 \<and> password_reset_tokens d' = password_reset_tokens d2))"
proof (intro conjI impI)
  assume inv: "\<not> is_valid now t"
  show "reset_password make_password True now req d =
              Inr (Response 400
                     (ErrorBody (if prt_is_used t \<or> prt_is_revoked t
                                 then ''Invalid token'' else ''Invalid or expired token'')),
                   d)"
  proof (cases "prt_is_used t \<or> prt_is_revoked t")
    case True
    have "objects_get
           (\<lambda>x. prt_token x = data_token req \<and> prt_is_used x = False
                  \<and> prt_is_revoked x = False) (password_reset_tokens d)
         = Inl DoesNotExist"
      using token_lookup [OF assms(1,2,3)] True by simp
    from reset_password_no_row [OF this] True show ?thesis by simp
  next
    case False
    have "objects_get
           (\<lambda>x. prt_token x = data_token req \<and> prt_is_used x = False
                  \<and> prt_is_revoked x = False) (password_reset_tokens d)
         = Inr t"
      using token_lookup [OF assms(1,2,3)] False by simp
    from reset_password_expired [OF this inv] False show ?thesis by simp
  qed
next
  assume inv: "\<not> is_valid now t"
  show "reset_password_writes make_password True now req d = []"
  proof (cases "prt_is_used t \<or> prt_is_revoked t")
    case True
    have "objects_get
           (\<lambda>x. prt_token x = data_token req \<and> prt_is_used x = False
                  \<and> prt_is_revoked x = False) (password_reset_tokens d)
         = Inl DoesNotExist"
      using token_lookup [OF assms(1,2,3)] True by simp
    from reset_password_writes_no_row [OF this] show ?thesis .
  next
    case False
    have "objects_get
           (\<lambda>x. prt_token x = data_token req \<and> prt_is_used x = False
                  \<and> prt_is_revoked x = False) (password_reset_tokens d)
         = Inr t"
      using token_lookup [OF assms(1,2,3)] False by simp
    from reset_password_writes_expired [OF this inv] show ?thesis .
  qed
next
  assume v: "is_valid now t"
  then have nu: "\<not> (prt_is_used t \<or> prt_is_revoked t)"
    by (auto simp add: is_valid_def split: if_splits)
  have g: "objects_get
           (\<lambda>x. prt_token x = data_token req \<and> prt_is_used x = False
                  \<and> prt_is_revoked x = False) (password_reset_tokens d)
         = Inr t"
    using token_lookup [OF assms(1,2,3)] nu by simp
  have gu: "objects_get (\<lambda>x. uid x = prt_user t) (users d) = Inr u"
    by (rule objects_get_unique [OF assms(4,5,6)])
  let ?us = "map (\<lambda>r. if uid r = uid u
                       then u\<lparr>password := make_password (data_new_password req),
                              password_changed_at := Some now,
                              must_change_password := False\<rparr>
                       else r) (users d)"
  let ?ts = "map (\<lambda>r. if prt_id r = prt_id t
                       then r\<lparr>prt_is_used := True, prt_used_at := Some now\<rparr>
                       else r) (password_reset_tokens d)"
  note r = reset_password_valid [OF g v gu assms(2,5,6), of make_password]
  note w = reset_password_writes_valid [OF g v gu assms(2,5,6), of make_password]
  show "\<exists>d1 d2 d'. reset_password make_password True now req d =
                     Inr (Response 200 (MessageBody ''Password reset successful''), d')
                 \<and> reset_password_writes make_password True now req d = [d1, d2, d']
                 \<and> users d1 = ?us
                 \<and> password_reset_tokens d1 = password_reset_tokens d
                 \<and> users d2 = users d1
                 \<and> password_reset_tokens d2 = ?ts
                 \<and> users d' = users d2
                 \<and> password_reset_tokens d' = password_reset_tokens d2"
  proof (intro exI conjI)
    show "reset_password make_password True now req d =
        Inr (Response 200 (MessageBody ''Password reset successful''),
             revoke_active_sessions now (uid u)
               (d\<lparr>users := ?us, password_reset_tokens := ?ts\<rparr>))"
      by (rule r)
    show "reset_password_writes make_password True now req d =
        [d\<lparr>users := ?us\<rparr>, d\<lparr>users := ?us, password_reset_tokens := ?ts\<rparr>,
         revoke_active_sessions now (uid u)
               (d\<lparr>users := ?us, password_reset_tokens := ?ts\<rparr>)]"
      by (rule w)
    show "users (d\<lparr>users := ?us\<rparr>) = ?us" by simp
    show "password_reset_tokens (d\<lparr>users := ?us\<rparr>) = password_reset_tokens d" by simp
    show "users (d\<lparr>users := ?us, password_reset_tokens := ?ts\<rparr>) = users (d\<lparr>users := ?us\<rparr>)"
      by simp
    show "password_reset_tokens (d\<lparr>users := ?us, password_reset_tokens := ?ts\<rparr>) = ?ts"
      by simp
    show "users (revoke_active_sessions now (uid u)
               (d\<lparr>users := ?us, password_reset_tokens := ?ts\<rparr>))
        = users (d\<lparr>users := ?us, password_reset_tokens := ?ts\<rparr>)"
      by (simp add: revoke_active_sessions_def)
    show "password_reset_tokens (revoke_active_sessions now (uid u)
               (d\<lparr>users := ?us, password_reset_tokens := ?ts\<rparr>))
        = password_reset_tokens (d\<lparr>users := ?us, password_reset_tokens := ?ts\<rparr>)"
      by (simp add: revoke_active_sessions_def)
  qed
qed

theorem reset_password_writes_in_two_steps_witness:
  "distinct (map prt_token (password_reset_tokens db_tok))
   \<and> tok1 \<in> set (password_reset_tokens db_tok) \<and> prt_token tok1 = data_token req_consume
   \<and> distinct (map uid (users db_tok)) \<and> alice \<in> set (users db_tok)
   \<and> uid alice = prt_user tok1
   \<and> is_valid 20 tok1 \<and> \<not> is_valid 3600000001 tok1
   \<and> reset_password example_hasher True 3600000001 req_consume db_tok =
        Inr (Response 400 (ErrorBody ''Invalid or expired token''), db_tok)
   \<and> reset_password_writes example_hasher True 3600000001 req_consume db_tok = []
   \<and> (\<exists>d1 d2 d'. reset_password example_hasher True 20 req_consume db_tok =
               Inr (Response 200 (MessageBody ''Password reset successful''), d')
           \<and> reset_password_writes example_hasher True 20 req_consume db_tok = [d1, d2, d']
           \<and> users d1 = [alice_new] \<and> password_reset_tokens d1 = [tok1]
           \<and> password_reset_tokens d' = [tok1\<lparr>prt_is_used := True, prt_used_at := Some 20\<rparr>]
           \<and> users d' = [alice_new])"
proof -
  have h1: "distinct (map prt_token (password_reset_tokens db_tok))"
    by (simp add: db_tok_def)
  have h2: "tok1 \<in> set (password_reset_tokens db_tok)" by (simp add: db_tok_def)
  have h3: "prt_token tok1 = data_token req_consume"
    by (simp add: tok1_def req_consume_def)
  have h4: "distinct (map uid (users db_tok))" by (simp add: db_tok_def db0_def)
  have h5: "alice \<in> set (users db_tok)" by (simp add: db_tok_def db0_def)
  have h6: "uid alice = prt_user tok1" by (simp add: alice_def tok1_def)
  have v: "is_valid 20 tok1" by (simp add: is_valid_def tok1_def)
  have nv: "\<not> is_valid 3600000001 tok1" by (simp add: is_valid_def tok1_def)
  have un: "\<not> (prt_is_used tok1 \<or> prt_is_revoked tok1)" by (simp add: tok1_def)
  note th = reset_password_writes_in_two_steps [OF h1 h2 h3 h4 h5 h6]
  have bad: "reset_password example_hasher True 3600000001 req_consume db_tok =
        Inr (Response 400 (ErrorBody ''Invalid or expired token''), db_tok)"
    using th [of 3600000001 example_hasher] nv un by simp
  have badw: "reset_password_writes example_hasher True 3600000001 req_consume db_tok = []"
    using th [of 3600000001 example_hasher] nv by blast
  from th [of 20 example_hasher] v
  obtain d1 d2 d' where r: "reset_password example_hasher True 20 req_consume db_tok =
               Inr (Response 200 (MessageBody ''Password reset successful''), d')"
    and w: "reset_password_writes example_hasher True 20 req_consume db_tok = [d1, d2, d']"
    and us1: "users d1 =
        map (\<lambda>r. if uid r = uid alice
                  then alice\<lparr>password := example_hasher (data_new_password req_consume),
                         password_changed_at := Some 20, must_change_password := False\<rparr>
                  else r) (users db_tok)"
    and ts1: "password_reset_tokens d1 = password_reset_tokens db_tok"
    and us2: "users d2 = users d1"
    and ts2: "password_reset_tokens d2 =
        map (\<lambda>r. if prt_id r = prt_id tok1
                  then r\<lparr>prt_is_used := True, prt_used_at := Some 20\<rparr> else r)
          (password_reset_tokens db_tok)"
    and us3: "users d' = users d2"
    and ts3: "password_reset_tokens d' = password_reset_tokens d2"
    by blast
  have us1': "users d1 = [alice_new]"
    unfolding us1
    by (simp add: db_tok_def db0_def alice_new_def example_hasher_def req_consume_def)
  have ts1': "password_reset_tokens d1 = [tok1]"
    unfolding ts1 by (simp add: db_tok_def)
  have ts': "password_reset_tokens d' = [tok1\<lparr>prt_is_used := True, prt_used_at := Some 20\<rparr>]"
    unfolding ts3 ts2 by (simp add: db_tok_def)
  have us': "users d' = [alice_new]"
    unfolding us3 us2 by (rule us1')
  show ?thesis
    using h1 h2 h3 h4 h5 h6 v nv bad badw r w us1' ts1' ts' us' by blast
qed

text \<open>
  The claim as stated fails: in the state that the first write of a successful reset
  commits, the user's password is the new one while the token is unused and still
  satisfies \<^verbatim>\<open>is_valid()\<close>, and a second request with the same token that runs in that
  state succeeds as well.
\<close>

theorem reset_password_same_step_counterexample:
  "reset_password example_hasher True 20 req_consume db_tok =
     Inr (Response 200 (MessageBody ''Password reset successful''), db_done)
   \<and> reset_password_writes example_hasher True 20 req_consume db_tok =
       [db_mid, db_done, db_done]
   \<and> users db_mid = [alice_new] \<and> password alice_new \<noteq> password alice
   \<and> password_reset_tokens db_mid = [tok1] \<and> is_valid 20 tok1
   \<and> reset_password example_hasher True 21 req_consume_again db_mid =
       Inr (Response 200 (MessageBody ''Password reset successful''), db_twice)"
proof -
  have gt: "objects_get
           (\<lambda>x. prt_token x = data_token req_consume \<and> prt_is_used x = False
                  \<and> prt_is_revoked x = False) (password_reset_tokens db_tok)
         = Inr tok1"
    by (simp add: objects_get_def db_tok_def tok1_def req_consume_def)
  have vt: "is_valid 20 tok1" by (simp add: is_valid_def tok1_def)
  have gu: "objects_get (\<lambda>x. uid x = prt_user tok1) (users db_tok) = Inr alice"
    by (simp add: objects_get_def db_tok_def db0_def alice_def tok1_def)
  have m1: "tok1 \<in> set (password_reset_tokens db_tok)" by (simp add: db_tok_def)
  have m2: "alice \<in> set (users db_tok)" by (simp add: db_tok_def db0_def)
  have fk: "uid alice = prt_user tok1" by (simp add: alice_def tok1_def)
  have a: "reset_password example_hasher True 20 req_consume db_tok =
     Inr (Response 200 (MessageBody ''Password reset successful''), db_done)"
    unfolding reset_password_valid [OF gt vt gu m1 m2 fk, of example_hasher]
    by (simp add: revoke_active_sessions_def db_tok_def db_done_def db0_def alice_new_def
        example_hasher_def req_consume_def tok1_def)
  have b: "reset_password_writes example_hasher True 20 req_consume db_tok =
       [db_mid, db_done, db_done]"
    unfolding reset_password_writes_valid [OF gt vt gu m1 m2 fk, of example_hasher]
    by (simp add: revoke_active_sessions_def db_tok_def db_mid_def db_done_def db0_def
        alice_new_def example_hasher_def req_consume_def tok1_def)
  have c: "users db_mid = [alice_new] \<and> password alice_new \<noteq> password alice
      \<and> password_reset_tokens db_mid = [tok1]"
    by (simp add: db_mid_def alice_new_def alice_def)
  have gt2: "objects_get
           (\<lambda>x. prt_token x = data_token req_consume_again \<and> prt_is_used x = False
                  \<and> prt_is_revoked x = False) (password_reset_tokens db_mid)
         = Inr tok1"
    by (simp add: objects_get_def db_mid_def tok1_def req_consume_again_def req_consume_def)
  have vt2: "is_valid 21 tok1" by (simp add: is_valid_def tok1_def)
  have gu2: "objects_get (\<lambda>x. uid x = prt_user tok1) (users db_mid) = Inr alice_new"
    by (simp add: objects_get_def db_mid_def alice_new_def alice_def tok1_def)
  have m3: "tok1 \<in> set (password_reset_tokens db_mid)" by (simp add: db_mid_def)
  have m4: "alice_new \<in> set (users db_mid)" by (simp add: db_mid_def)
  have fk2: "uid alice_new = prt_user tok1" by (simp add: alice_new_def alice_def tok1_def)
  have e: "reset_password example_hasher True 21 req_consume_again db_mid =
       Inr (Response 200 (MessageBody ''Password reset successful''), db_twice)"
    unfolding reset_password_valid [OF gt2 vt2 gu2 m3 m4 fk2, of example_hasher]
    by (simp add: revoke_active_sessions_def db_mid_def db_twice_def db0_def alice_new_def
        alice_evil_def example_hasher_def req_consume_again_def req_consume_def tok1_def)
  show ?thesis using a b c vt e by simp
qed

text \<open>
  Claim C2, as the code has it. \<^verbatim>\<open>request_reset\<close> for an existing user adds one token,
  unused, unrevoked and expiring one hour later, and changes no other row: no earlier
  token is revoked. The user's tokens that satisfy \<^verbatim>\<open>is_valid()\<close> are afterwards those
  that did before and the new one, and an earlier token of the user that satisfies
  \<^verbatim>\<open>is_valid()\<close> is still consumed with success.
\<close>

theorem request_reset_keeps_prior_tokens:
  assumes "distinct (map email (users d))" and "user \<in> set (users d)"
    and "email user = data_email req"
    and "new_id \<notin> prt_id ` set (password_reset_tokens d)"
    and "tok \<notin> prt_token ` set (password_reset_tokens d)"
    and "distinct (map prt_token (password_reset_tokens d))"
    and "distinct (map uid (users d))"
  shows "\<exists>new. request_reset tok new_id now req d =
             Inr (Response 200
                    (MessageBody ''If the email exists, a password reset link has been sent.''),
                  d\<lparr>password_reset_tokens := password_reset_tokens d @ [new]\<rparr>)
           \<and> prt_user new = uid user \<and> prt_token new = tok
           \<and> prt_expires_at new = now + timedelta_hours 1
           \<and> is_valid now new
           \<and> valid_tokens_of now (uid user)
                (d\<lparr>password_reset_tokens := password_reset_tokens d @ [new]\<rparr>)
               = valid_tokens_of now (uid user) d @ [new]
           \<and> (\<forall>t \<in> set (password_reset_tokens d).
                 prt_user t = uid user \<and> prt_token t = data_token req' \<and> is_valid now' t \<longrightarrow>
                 (\<exists>d'. reset_password make_password True now' req'
                          (d\<lparr>password_reset_tokens := password_reset_tokens d @ [new]\<rparr>) =
                        Inr (Response 200 (MessageBody ''Password reset successful''), d')))"
proof -
  let ?new = "\<lparr>prt_id = new_id, prt_user = uid user, prt_token = tok,
                prt_created_at = now, prt_expires_at = now + timedelta_hours 1,
                prt_used_at = None, prt_ip_address = client_ip req,
                prt_user_agent = http_user_agent req,
                prt_is_used = False, prt_is_revoked = False\<rparr>"
  let ?d1 = "d\<lparr>password_reset_tokens := password_reset_tokens d @ [?new]\<rparr>"
  have g: "objects_get (\<lambda>u. email u = data_email req) (users d) = Inr user"
    by (rule objects_get_unique [OF assms(1,2,3)])
  have v: "is_valid now ?new"
    using timedelta_hours_1_pos by (simp add: is_valid_def)
  have dist: "distinct (map prt_token (password_reset_tokens ?d1))"
    using assms(5,6) by simp
  have consume: "\<exists>d'. reset_password make_password True now' req' ?d1 =
                        Inr (Response 200 (MessageBody ''Password reset successful''), d')"
    if t: "t \<in> set (password_reset_tokens d)"
      and c: "prt_user t = uid user \<and> prt_token t = data_token req' \<and> is_valid now' t"
    for t
  proof -
    have mem: "t \<in> set (password_reset_tokens ?d1)" using t by simp
    have nu: "\<not> (prt_is_used t \<or> prt_is_revoked t)"
      using c by (auto simp add: is_valid_def split: if_splits)
    have tk: "prt_token t = data_token req'" using c by simp
    have gt: "objects_get
           (\<lambda>x. prt_token x = data_token req' \<and> prt_is_used x = False
                  \<and> prt_is_revoked x = False) (password_reset_tokens ?d1)
         = Inr t"
      using token_lookup [OF dist mem tk] nu by simp
    have fk: "uid user = prt_user t" using c by simp
    have umem: "user \<in> set (users ?d1)" using assms(2) by simp
    have gu: "objects_get (\<lambda>x. uid x = prt_user t) (users ?d1) = Inr user"
      using objects_get_unique [OF assms(7,2) fk] by simp
    have vt: "is_valid now' t" using c by simp
    from reset_password_valid [OF gt vt gu mem umem fk, of make_password]
    show ?thesis by blast
  qed
  show ?thesis
  proof (intro exI conjI)
    show "request_reset tok new_id now req d =
             Inr (Response 200
                    (MessageBody ''If the email exists, a password reset link has been sent.''),
                  ?d1)"
      by (rule request_reset_Inr [OF g assms(4,5)])
    show "prt_user ?new = uid user" by simp
    show "prt_token ?new = tok" by simp
    show "prt_expires_at ?new = now + timedelta_hours 1" by simp
    show "is_valid now ?new" by (rule v)
    show "valid_tokens_of now (uid user) ?d1 = valid_tokens_of now (uid user) d @ [?new]"
      using v by (simp add: valid_tokens_of_def)
    show "\<forall>t \<in> set (password_reset_tokens d).
            prt_user t = uid user \<and> prt_token t = data_token req' \<and> is_valid now' t \<longrightarrow>
            (\<exists>d'. reset_password make_password True now' req' ?d1 =
                        Inr (Response 200 (MessageBody ''Password reset successful''), d'))"
      using consume by blast
  qed
qed

theorem request_reset_keeps_prior_tokens_witness:
  "distinct (map email (users db_tok)) \<and> alice \<in> set (users db_tok)
   \<and> email alice = data_email req_alice
   \<and> 2 \<notin> prt_id ` set (password_reset_tokens db_tok)
   \<and> ''t2'' \<notin> prt_token ` set (password_reset_tokens db_tok)
   \<and> distinct (map prt_token (password_reset_tokens db_tok))
   \<and> distinct (map uid (users db_tok))
   \<and> tok1 \<in> set (password_reset_tokens db_tok)
   \<and> prt_user tok1 = uid alice \<and> prt_token tok1 = data_token req_consume
   \<and> is_valid 20 tok1
   \<and> (\<exists>new. request_reset ''t2'' 2 10 req_alice db_tok =
             Inr (Response 200
                    (MessageBody ''If the email exists, a password reset link has been sent.''),
                  db_tok\<lparr>password_reset_tokens := password_reset_tokens db_tok @ [new]\<rparr>)
           \<and> is_valid 10 new
           \<and> valid_tokens_of 10 (uid alice)
                (db_tok\<lparr>password_reset_tokens := password_reset_tokens db_tok @ [new]\<rparr>)
               = valid_tokens_of 10 (uid alice) db_tok @ [new]
           \<and> (\<exists>d'. reset_password example_hasher True 20 req_consume
                          (db_tok\<lparr>password_reset_tokens := password_reset_tokens db_tok @ [new]\<rparr>) =
                        Inr (Response 200 (MessageBody ''Password reset successful''), d')))"
proof -
  have h1: "distinct (map email (users db_tok))" by (simp add: db_tok_def db0_def)
  have h2: "alice \<in> set (users db_tok)" by (simp add: db_tok_def db0_def)
  have h3: "email alice = data_email req_alice" by (simp add: alice_def req_alice_def)
  have h4: "2 \<notin> prt_id ` set (password_reset_tokens db_tok)"
    by (simp add: db_tok_def tok1_def)
  have h5: "''t2'' \<notin> prt_token ` set (password_reset_tokens db_tok)"
    by (simp add: db_tok_def tok1_def)
  have h6: "distinct (map prt_token (password_reset_tokens db_tok))"
    by (simp add: db_tok_def)
  have h7: "distinct (map uid (users db_tok))" by (simp add: db_tok_def db0_def)
  have m: "tok1 \<in> set (password_reset_tokens db_tok)" by (simp add: db_tok_def)
  have c: "prt_user tok1 = uid alice \<and> prt_token tok1 = data_token req_consume
      \<and> is_valid 20 tok1"
    by (simp add: tok1_def alice_def req_consume_def is_valid_def)
  from request_reset_keeps_prior_tokens
    [OF h1 h2 h3 h4 h5 h6 h7, of 10 req_consume 20 example_hasher]
  obtain new where r: "request_reset ''t2'' 2 10 req_alice db_tok =
             Inr (Response 200
                    (MessageBody ''If the email exists, a password reset link has been sent.''),
                  db_tok\<lparr>password_reset_tokens := password_reset_tokens db_tok @ [new]\<rparr>)"
    and v: "is_valid 10 new"
    and vs: "valid_tokens_of 10 (uid alice)
                (db_tok\<lparr>password_reset_tokens := password_reset_tokens db_tok @ [new]\<rparr>)
               = valid_tokens_of 10 (uid alice) db_tok @ [new]"
    and al: "\<forall>t \<in> set (password_reset_tokens db_tok).
                 prt_user t = uid alice \<and> prt_token t = data_token req_consume
                   \<and> is_valid 20 t \<longrightarrow>
                 (\<exists>d'. reset_password example_hasher True 20 req_consume
                          (db_tok\<lparr>password_reset_tokens := password_reset_tokens db_tok @ [new]\<rparr>) =
                        Inr (Response 200 (MessageBody ''Password reset successful''), d'))"
    by blast
  from al m c have ex: "\<exists>d'. reset_password example_hasher True 20 req_consume
                          (db_tok\<lparr>password_reset_tokens := password_reset_tokens db_tok @ [new]\<rparr>) =
                        Inr (Response 200 (MessageBody ''Password reset successful''), d')"
    by blast
  show ?thesis
    using h1 h2 h3 h4 h5 h6 h7 m c r v vs ex by blast
qed

text \<open>
  The claim as stated fails: after a second token is issued to a user with a live token,
  two tokens of the user satisfy \<^verbatim>\<open>is_valid()\<close>, and consuming the first one succeeds.
\<close>

theorem request_reset_revokes_counterexample:
  "request_reset ''t2'' 2 10 req_alice db_tok =
     Inr (Response 200
            (MessageBody ''If the email exists, a password reset link has been sent.''),
          db_tok2)
   \<and> valid_tokens_of 10 1 db_tok2 = [tok1, tok2]
   \<and> \<not> length (valid_tokens_of 10 1 db_tok2) \<le> 1
   \<and> reset_password example_hasher True 20 req_consume db_tok2 =
       Inr (Response 200 (MessageBody ''Password reset successful''), db_tok3)"
proof -
  have g: "objects_get (\<lambda>u. email u = data_email req_alice) (users db_tok) = Inr alice"
    by (simp add: objects_get_def db_tok_def db0_def alice_def req_alice_def)
  have f1: "2 \<notin> prt_id ` set (password_reset_tokens db_tok)"
    by (simp add: db_tok_def tok1_def)
  have f2: "''t2'' \<notin> prt_token ` set (password_reset_tokens db_tok)"
    by (simp add: db_tok_def tok1_def)
  have a: "request_reset ''t2'' 2 10 req_alice db_tok =
     Inr (Response 200
            (MessageBody ''If the email exists, a password reset link has been sent.''),
          db_tok2)"
    unfolding request_reset_Inr [OF g f1 f2]
    by (simp add: db_tok_def db_tok2_def db0_def tok2_def alice_def req_alice_def
        timedelta_hours_def)
  have b: "valid_tokens_of 10 1 db_tok2 = [tok1, tok2]"
    by (simp add: valid_tokens_of_def db_tok2_def is_valid_def tok1_def tok2_def)
  have gt: "objects_get
           (\<lambda>x. prt_token x = data_token req_consume \<and> prt_is_used x = False
                  \<and> prt_is_revoked x = False) (password_reset_tokens db_tok2)
         = Inr tok1"
    by (simp add: objects_get_def db_tok2_def tok1_def tok2_def req_consume_def)
  have vt: "is_valid 20 tok1" by (simp add: is_valid_def tok1_def)
  have gu: "objects_get (\<lambda>x. uid x = prt_user tok1) (users db_tok2) = Inr alice"
    by (simp add: objects_get_def db_tok2_def db0_def alice_def tok1_def)
  have m1: "tok1 \<in> set (password_reset_tokens db_tok2)" by (simp add: db_tok2_def)
  have m2: "alice \<in> set (users db_tok2)" by (simp add: db_tok2_def db0_def)
  have fk: "uid alice = prt_user tok1" by (simp add: alice_def tok1_def)
  have c: "reset_password example_hasher True 20 req_consume db_tok2 =
       Inr (Response 200 (MessageBody ''Password reset successful''), db_tok3)"
    unfolding reset_password_valid [OF gt vt gu m1 m2 fk, of example_hasher]
    by (simp add: revoke_active_sessions_def db_tok2_def db_tok3_def db0_def alice_new_def
        example_hasher_def req_consume_def tok1_def tok2_def)
  show ?thesis using a b c by simp
qed

section \<open>User quota\<close>

text \<open>
  Claim C7, as the code has it. For valid request data, \<^verbatim>\<open>create\<close> answers 403 with
  the tenant-limit message exactly when \<^verbatim>\<open>max_users\<close> is at most the number of the
  tenant's users, active or not; below the limit the user is inserted with the tenant
  set and the answer is 201, unless the key or the email is taken.
\<close>

theorem create_quota:
  "(create True instance t d = Inr (Response 403 (ErrorBody ''Tenant user limit reached''), d)
      \<longleftrightarrow> max_users t \<le> int (tenant_user_count t d))
   \<and> (int (tenant_user_count t d) < max_users t \<longrightarrow>
        create True instance t d = 
          (if \<exists>r \<in> set (users d). uid r = uid instance \<or> email r = email instance
           then Inl IntegrityError
           else Inr (Response 201 (UserBody (uid instance)),
                     d\<lparr>users := users d @ [instance\<lparr>tenant := tenant_id t\<rparr>]\<rparr>)))"
  by (auto simp add: create_def tenant_user_count_def User_insert_def)

theorem create_quota_witness:
  "max_users tenant1 \<le> int (tenant_user_count tenant1 db0)
   \<and> create True bob tenant1 db0 =
       Inr (Response 403 (ErrorBody ''Tenant user limit reached''), db0)
   \<and> int (tenant_user_count tenant2 db0) < max_users tenant2
   \<and> create True bob tenant2 db0 =
       Inr (Response 201 (UserBody 2), db0\<lparr>users := [alice, bob\<lparr>tenant := 1\<rparr>]\<rparr>)"
proof -
  have h1: "max_users tenant1 \<le> int (tenant_user_count tenant1 db0)"
    by (simp add: tenant_user_count_def tenant1_def db0_def alice_def)
  have h2: "int (tenant_user_count tenant2 db0) < max_users tenant2"
    by (simp add: tenant_user_count_def tenant2_def db0_def alice_def)
  have a: "create True bob tenant1 db0 =
       Inr (Response 403 (ErrorBody ''Tenant user limit reached''), db0)"
    using create_quota [of bob tenant1 db0] h1 by blast
  have fresh: "\<not> (\<exists>r \<in> set (users db0). uid r = uid bob \<or> email r = email bob)"
    by (simp add: db0_def alice_def bob_def)
  have "create True bob tenant2 db0 =
          Inr (Response 201 (UserBody (uid bob)),
               db0\<lparr>users := users db0 @ [bob\<lparr>tenant := tenant_id tenant2\<rparr>]\<rparr>)"
    using create_quota [of bob tenant2 db0] h2 fresh by presburger
  then have b: "create True bob tenant2 db0 =
       Inr (Response 201 (UserBody 2), db0\<lparr>users := [alice, bob\<lparr>tenant := 1\<rparr>]\<rparr>)"
    by (simp add: bob_def tenant2_def db0_def)
  show ?thesis using h1 h2 a b by blast
qed

text \<open>
  The claim as stated fails: a tenant with \<^verbatim>\<open>max_users = 1\<close> whose only user is
  inactive has no active user, yet creating a user is refused with 403.
\<close>

theorem create_quota_counterexample:
  "int (active_user_count tenant1 db_inactive) < max_users tenant1
   \<and> create True bob tenant1 db_inactive =
       Inr (Response 403 (ErrorBody ''Tenant user limit reached''), db_inactive)"
  by (simp add: active_user_count_def tenant1_def db_inactive_def db0_def alice_inactive_def
      alice_def create_def)

section \<open>Role permissions\<close>

text \<open>
  Claim C1, as the code has it. When following \<^verbatim>\<open>parent_role\<close> from a role reaches a
  role without parent, \<^verbatim>\<open>get_all_permissions\<close> returns, and what it returns is the
  union of the direct permissions of the roles on the way, each permission once.
\<close>

theorem get_all_permissions_chain:
  assumes "parent_chain n roles self = Some chain"
  shows "get_all_permissions roles self = Some (Inr (\<Union> (permissions ` set chain)))"
  using assms
proof (induction n arbitrary: self chain)
  case 0
  then show ?case
    by (subst get_all_permissions.simps) (auto split: option.splits)
next
  case (Suc n)
  show ?case
  proof (cases "parent_role self")
    case None
    then show ?thesis
      using Suc.prems by (subst get_all_permissions.simps) auto
  next
    case (Some pid)
    from Suc.prems Some obtain parent rest where p: "roles pid = Some parent"
      and r: "parent_chain n roles parent = Some rest" and c: "chain = self # rest"
      by (auto split: option.splits)
    have "get_all_permissions roles parent = Some (Inr (\<Union> (permissions ` set rest)))"
      by (rule Suc.IH [OF r])
    then show ?thesis
      using Some p c by (subst get_all_permissions.simps) simp
  qed
qed

theorem get_all_permissions_chain_witness:
  "parent_chain 1 tree_roles role_editor = Some [role_editor, role_viewer]
   \<and> get_all_permissions tree_roles role_editor = Some (Inr {10, 11, 20})"
proof -
  have h: "parent_chain 1 tree_roles role_editor = Some [role_editor, role_viewer]"
    by (simp add: tree_roles_def role_editor_def role_viewer_def)
  have "get_all_permissions tree_roles role_editor
      = Some (Inr (\<Union> (permissions ` set [role_editor, role_viewer])))"
    by (rule get_all_permissions_chain [OF h])
  moreover have "\<Union> (permissions ` set [role_editor, role_viewer]) = {10, 11, 20}"
    by (auto simp add: role_editor_def role_viewer_def)
  ultimately show ?thesis using h by simp
qed

text \<open>Conversely, a set of permissions is only returned along such a chain of parents.\<close>

lemma get_all_permissions_returns_chain:
  assumes "get_all_permissions roles self = Some y"
  shows "\<forall>ps. y = Inr ps \<longrightarrow>
           (\<exists>n chain. parent_chain n roles self = Some chain
               \<and> ps = \<Union> (permissions ` set chain))"
proof (rule get_all_permissions.raw_induct
    [where P = "\<lambda>r s y. \<forall>ps. y = Inr ps \<longrightarrow>
           (\<exists>n chain. parent_chain n r s = Some chain
               \<and> ps = \<Union> (permissions ` set chain))", OF _ assms])
  fix f :: "(nat \<rightharpoonup> role) \<Rightarrow> role \<Rightarrow> (error + nat set) option"
  fix r :: "nat \<rightharpoonup> role" and s :: role and z :: "error + nat set"
  assume IH: "\<And>r' s' y'. f r' s' = Some y' \<Longrightarrow>
      \<forall>ps. y' = Inr ps \<longrightarrow>
           (\<exists>n chain. parent_chain n r' s' = Some chain
               \<and> ps = \<Union> (permissions ` set chain))"
  assume body: "(case parent_role s of
        None \<Rightarrow> Some (Inr (permissions s))
      | Some pid \<Rightarrow>
          (case r pid of
             None \<Rightarrow> Some (Inl DoesNotExist)
           | Some parent \<Rightarrow>
               Option.bind (f r parent)
                 (\<lambda>res. Some (case res of
                                Inl e \<Rightarrow> Inl e
                              | Inr inherited \<Rightarrow> Inr (permissions s \<union> inherited))))) = Some z"
  show "\<forall>ps. z = Inr ps \<longrightarrow>
           (\<exists>n chain. parent_chain n r s = Some chain
               \<and> ps = \<Union> (permissions ` set chain))"
  proof (intro allI impI)
    fix ps assume z: "z = Inr ps"
    show "\<exists>n chain. parent_chain n r s = Some chain
               \<and> ps = \<Union> (permissions ` set chain)"
    proof (cases "parent_role s")
      case None
      then have "ps = permissions s" using body z by simp
      moreover have "parent_chain 0 r s = Some [s]" using None by simp
      ultimately show ?thesis by (intro exI [of _ 0] exI [of _ "[s]"]) simp
    next
      case (Some pid)
      note par = Some
      show ?thesis
      proof (cases "r pid")
        case None
        then show ?thesis using body par z by simp
      next
        case (Some parent)
        from body par Some
        obtain res where fr: "f r parent = Some res"
          and zr: "z = (case res of Inl e \<Rightarrow> Inl e
                        | Inr inherited \<Rightarrow> Inr (permissions s \<union> inherited))"
          by (auto simp add: bind_eq_Some_conv)
        with z obtain inh where res: "res = Inr inh" and ps: "ps = permissions s \<union> inh"
          by (cases res) auto
        from IH [OF fr] res obtain n chain where
          pc: "parent_chain n r parent = Some chain"
          and inh: "inh = \<Union> (permissions ` set chain)"
          by blast
        have "parent_chain (Suc n) r s = Some (s # chain)"
          using par Some pc by simp
        moreover have "ps = \<Union> (permissions ` set (s # chain))"
          using ps inh by simp
        ultimately show ?thesis by blast
      qed
    qed
  qed
qed

text \<open>
  The claim as stated fails: with role A's parent B and B's parent A the call on A
  does not return, so it does not return the union of the two permission sets.
\<close>

theorem get_all_permissions_cycle_counterexample:
  "parent_role role_A = Some (role_id role_B) \<and> parent_role role_B = Some (role_id role_A)
   \<and> cyclic_roles (role_id role_A) = Some role_A
   \<and> cyclic_roles (role_id role_B) = Some role_B
   \<and> get_all_permissions cyclic_roles role_A = None
   \<and> get_all_permissions cyclic_roles role_A
       \<noteq> Some (Inr (permissions role_A \<union> permissions role_B))"
proof -
  have "get_all_permissions cyclic_roles role_A = None"
  proof (cases "get_all_permissions cyclic_roles role_A")
    case None
    then show ?thesis .
  next
    case (Some y)
    from cyclic_never_returns [OF this] show ?thesis by simp
  qed
  then show ?thesis
    by (simp add: role_A_def role_B_def cyclic_roles_def)
qed


end
